theory Spec2Isabelle
  imports Complex_Main
begin

section \<open>Numbers of a pandas column\<close>

text \<open>
  Every numeric cell of a pandas table is a float64 (or an int64 that true division turns
  into a float64). The special values decide what the cleaning and ratio code does, so
  they are values of the model: \<open>NaN\<close> (also pandas' marker of a missing cell),
  \<open>PInf\<close> and \<open>NInf\<close>. A finite value is a real number. The operations of this
  section follow IEEE 754 on the special values and are exact on finite values; the
  sign of zero is outside the model. Rounding to binary64 is a separate step
  (\<open>round64\<close>, in the section on binary64 below), applied after every scalar
  operation of the attribution functions, whose sum law is a statement about rounding.
\<close>

datatype fnum = Fin real | PInf | NInf | NaN

fun fneg :: "fnum \<Rightarrow> fnum" where
  "fneg (Fin a) = Fin (- a)"
| "fneg PInf = NInf"
| "fneg NInf = PInf"
| "fneg NaN = NaN"

fun fadd :: "fnum \<Rightarrow> fnum \<Rightarrow> fnum" where
  "fadd (Fin a) (Fin b) = Fin (a + b)"
| "fadd NaN y = NaN"
| "fadd x NaN = NaN"
| "fadd PInf NInf = NaN"
| "fadd NInf PInf = NaN"
| "fadd PInf y = PInf"
| "fadd NInf y = NInf"
| "fadd (Fin a) PInf = PInf"
| "fadd (Fin a) NInf = NInf"

definition fsub :: "fnum \<Rightarrow> fnum \<Rightarrow> fnum" where
  "fsub x y = fadd x (fneg y)"

fun fabs :: "fnum \<Rightarrow> fnum" where
  "fabs (Fin a) = Fin \<bar>a\<bar>"
| "fabs PInf = PInf"
| "fabs NInf = PInf"
| "fabs NaN = NaN"

text \<open>The sign of a value that is not NaN: \<open>-1\<close>, \<open>0\<close> or \<open>1\<close>.\<close>

fun fsign :: "fnum \<Rightarrow> int" where
  "fsign (Fin a) = (if a < 0 then - 1 else if a = 0 then 0 else 1)"
| "fsign PInf = 1"
| "fsign NInf = - 1"
| "fsign NaN = 0"

definition inf_of_sign :: "int \<Rightarrow> fnum" where
  "inf_of_sign s = (if s < 0 then NInf else PInf)"

fun fmul :: "fnum \<Rightarrow> fnum \<Rightarrow> fnum" where
  "fmul (Fin a) (Fin b) = Fin (a * b)"
| "fmul NaN y = NaN"
| "fmul x NaN = NaN"
| "fmul x y = (if fsign x * fsign y = 0 then NaN else inf_of_sign (fsign x * fsign y))"

text \<open>
  True division as numpy does it on arrays and numpy scalars: no exception, \<open>0/0\<close> is
  NaN, a non-zero value over zero is an infinity, a finite value over an infinity is zero.
\<close>

fun fdiv :: "fnum \<Rightarrow> fnum \<Rightarrow> fnum" where
  "fdiv NaN y = NaN"
| "fdiv x NaN = NaN"
| "fdiv (Fin a) (Fin b) =
     (if b = 0 then (if a = 0 then NaN else if 0 < a then PInf else NInf) else Fin (a / b))"
| "fdiv (Fin a) y = Fin 0"
| "fdiv x (Fin b) = (if b < 0 then fneg x else x)"
| "fdiv x y = NaN"

fun fsqrt :: "fnum \<Rightarrow> fnum" where
  "fsqrt (Fin a) = (if a < 0 then NaN else Fin (sqrt a))"
| "fsqrt PInf = PInf"
| "fsqrt NInf = NaN"
| "fsqrt NaN = NaN"

text \<open>Comparisons: every comparison with NaN is false.\<close>

fun flt :: "fnum \<Rightarrow> fnum \<Rightarrow> bool" where
  "flt NaN y = False"
| "flt x NaN = False"
| "flt (Fin a) (Fin b) = (a < b)"
| "flt x NInf = False"
| "flt NInf y = True"
| "flt PInf y = False"
| "flt (Fin a) PInf = True"

fun fle :: "fnum \<Rightarrow> fnum \<Rightarrow> bool" where
  "fle NaN y = False"
| "fle x NaN = False"
| "fle x y = (x = y \<or> flt x y)"

definition fgt :: "fnum \<Rightarrow> fnum \<Rightarrow> bool" where
  "fgt x y = flt y x"

definition isnan :: "fnum \<Rightarrow> bool" where
  "isnan x = (x = NaN)"

definition isinf :: "fnum \<Rightarrow> bool" where
  "isinf x = (x = PInf \<or> x = NInf)"

definition isfinite :: "fnum \<Rightarrow> bool" where
  "isfinite x = (\<not> isnan x \<and> \<not> isinf x)"

section \<open>Series and their reductions\<close>

text \<open>
  \<open>np_sum\<close> and \<open>np_mean\<close> are numpy's: NaN propagates. The pandas reductions
  \<open>series_sum\<close>, \<open>series_mean\<close> and \<open>series_std\<close> skip NaN first
  (\<open>skipna=True\<close>); the mean of no value is NaN, and \<open>std\<close> is the sample
  estimator (\<open>ddof=1\<close>), NaN on fewer than two values.
\<close>

definition np_sum :: "fnum list \<Rightarrow> fnum" where
  "np_sum xs = foldl fadd (Fin 0) xs"

definition np_mean :: "fnum list \<Rightarrow> fnum" where
  "np_mean xs = fdiv (np_sum xs) (Fin (real (length xs)))"

definition dropna :: "fnum list \<Rightarrow> fnum list" where
  "dropna xs = filter (\<lambda>x. \<not> isnan x) xs"

definition series_sum :: "fnum list \<Rightarrow> fnum" where
  "series_sum xs = np_sum (dropna xs)"

definition series_mean :: "fnum list \<Rightarrow> fnum" where
  "series_mean xs =
     (let ys = dropna xs in
      if ys = [] then NaN else fdiv (np_sum ys) (Fin (real (length ys))))"

definition series_std :: "fnum list \<Rightarrow> fnum" where
  "series_std xs =
     (let ys = dropna xs; n = length ys in
      if n < 2 then NaN
      else let avg = fdiv (np_sum ys) (Fin (real n));
               sqr = map (\<lambda>y. fmul (fsub avg y) (fsub avg y)) ys
           in fsqrt (fdiv (np_sum sqr) (Fin (real (n - 1)))))"

section \<open>Tables\<close>

text \<open>
  A table has its column names in order and its rows in order. Each row carries its date
  (days since some epoch; the loaders parse the date column before any function below
  runs) and its numeric cells. Only the cells of the names in \<open>columns\<close> belong to the
  table. Reading a column that the table does not have raises \<open>KeyError\<close>.
\<close>

datatype error = KeyError string | ValueError

record row =
  date :: int
  cell :: "string \<Rightarrow> fnum"

record frame =
  columns :: "string list"
  rows :: "row list"

definition has_col :: "frame \<Rightarrow> string \<Rightarrow> bool" where
  "has_col df c = (c \<in> set (columns df))"

definition getcol :: "frame \<Rightarrow> string \<Rightarrow> error + fnum list" where
  "getcol df c = (if has_col df c then Inr (map (\<lambda>r. cell r c) (rows df)) else Inl (KeyError c))"

definition ebind :: "error + 'a \<Rightarrow> ('a \<Rightarrow> error + 'b) \<Rightarrow> error + 'b" where
  "ebind m f = (case m of Inl e \<Rightarrow> Inl e | Inr x \<Rightarrow> f x)"

text \<open>\<open>df[c] = f(row)\<close>: the column is overwritten, or appended when it is new.\<close>

definition setcol :: "frame \<Rightarrow> string \<Rightarrow> (row \<Rightarrow> fnum) \<Rightarrow> frame" where
  "setcol df c f =
     \<lparr>columns = (if has_col df c then columns df else columns df @ [c]),
      rows = map (\<lambda>r. r\<lparr>cell := (cell r)(c := f r)\<rparr>) (rows df)\<rparr>"

section \<open>data_processing.validate_and_clean_data\<close>

text \<open>
  The steps of \<open>validate_and_clean_data\<close>, in the order of the source. Every column of
  the model is numeric, so \<open>select_dtypes(include=[np.number])\<close> selects all of
  \<open>columns\<close>. The log messages are not modelled; the comparison of the stored with
  the computed ROAS only logs.
\<close>

definition fillna0 :: "fnum \<Rightarrow> fnum" where
  "fillna0 x = (if isnan x then Fin 0 else x)"

definition fill_numeric :: "frame \<Rightarrow> frame" where
  "fill_numeric df =
     df\<lparr>rows := map (\<lambda>r. r\<lparr>cell := (\<lambda>c. if has_col df c then fillna0 (cell r c) else cell r c)\<rparr>)
                    (rows df)\<rparr>"

definition financial_columns :: "string list" where
  "financial_columns =
     [''total_revenue'', ''gross_profit'', ''COGS'', ''spend'',
      ''facebook_spend'', ''google_spend'', ''tiktok_spend'',
      ''attributed_revenue'', ''facebook_attributed revenue'',
      ''google_attributed revenue'', ''tiktok_attributed revenue'']"

definition clip_lower0 :: "fnum \<Rightarrow> fnum" where
  "clip_lower0 x = (if flt x (Fin 0) then Fin 0 else x)"

definition clip_col :: "frame \<Rightarrow> string \<Rightarrow> frame" where
  "clip_col df c = (if has_col df c then setcol df c (\<lambda>r. clip_lower0 (cell r c)) else df)"

definition clip_financial :: "frame \<Rightarrow> frame" where
  "clip_financial df = foldl clip_col df financial_columns"

text \<open>\<open>np.where(df['spend'] > 0, df['attributed_revenue'] / df['spend'], 0)\<close>\<close>

definition add_calculated_roas :: "frame \<Rightarrow> error + frame" where
  "add_calculated_roas df =
     ebind (getcol df ''spend'') (\<lambda>_.
     ebind (getcol df ''attributed_revenue'') (\<lambda>_.
       Inr (setcol df ''calculated_marketing_roas''
              (\<lambda>r. if fgt (cell r ''spend'') (Fin 0)
                   then fdiv (cell r ''attributed_revenue'') (cell r ''spend'')
                   else Fin 0))))"

definition outlier_columns :: "string list" where
  "outlier_columns = [''marketing_roas'', ''total_revenue'', ''orders'']"

text \<open>
  One round of the outlier loop: mean and standard deviation of the column over the table
  as it is now, then the rows with \<open>abs(df[col] - mean_val) <= 3 * std_val\<close> are kept.
\<close>

definition keeps :: "string \<Rightarrow> fnum \<Rightarrow> fnum \<Rightarrow> row \<Rightarrow> bool" where
  "keeps c mean_val std_val r = fle (fabs (fsub (cell r c) mean_val)) (fmul (Fin 3) std_val)"

definition remove_outliers_col :: "frame \<Rightarrow> string \<Rightarrow> frame" where
  "remove_outliers_col df c =
     (if has_col df c then
        (let xs = map (\<lambda>r. cell r c) (rows df);
             mean_val = series_mean xs;
             std_val = series_std xs
         in df\<lparr>rows := filter (keeps c mean_val std_val) (rows df)\<rparr>)
      else df)"

definition remove_outliers :: "frame \<Rightarrow> frame" where
  "remove_outliers df = foldl remove_outliers_col df outlier_columns"

definition validate_and_clean_data :: "frame \<Rightarrow> error + frame" where
  "validate_and_clean_data df =
     ebind (add_calculated_roas (clip_financial (fill_numeric df)))
           (\<lambda>d. Inr (remove_outliers d))"

text \<open>
  The same function on objects. A table the caller holds is an address in a store of
  tables. \<open>df[cols] = ...\<close> and \<open>df[col] = ...\<close> write into the object the
  caller passed; \<open>df = df[mask]\<close> makes a new object and rebinds the local name only.
  The result is the store after the call and the address returned (or the error raised,
  after the writes already made).
\<close>

type_synonym heap = "frame list"

definition outlier_step :: "heap \<times> nat \<Rightarrow> string \<Rightarrow> heap \<times> nat" where
  "outlier_step hp c =
     (case hp of (h, p) \<Rightarrow>
        if has_col (h ! p) c then (h @ [remove_outliers_col (h ! p) c], length h) else (h, p))"

definition validate_and_clean_data_st :: "heap \<Rightarrow> nat \<Rightarrow> heap \<times> (error + nat)" where
  "validate_and_clean_data_st h p =
     (let h1 = h[p := fill_numeric (h ! p)];
          h2 = h1[p := clip_financial (h1 ! p)]
      in case add_calculated_roas (h2 ! p) of
           Inl e \<Rightarrow> (h2, Inl e)
         | Inr d \<Rightarrow>
             (case foldl outlier_step (h2[p := d], p) outlier_columns of
                (h3, q) \<Rightarrow> (h3, Inr q)))"

section \<open>Sorting by date and rolling means\<close>

text \<open>
  \<open>df.sort_values('date')\<close> orders the rows by date; rows of one date keep their order
  here. \<open>rolling(window=7, min_periods=1).mean()\<close> takes, at each row, the mean of the
  valid values among that row and the six before it (pandas turns infinities into missing
  values first), and is missing when there is none.
\<close>

definition sort_values_date :: "frame \<Rightarrow> frame" where
  "sort_values_date df = df\<lparr>rows := sort_key date (rows df)\<rparr>"

definition setcol_vals :: "frame \<Rightarrow> string \<Rightarrow> fnum list \<Rightarrow> frame" where
  "setcol_vals df c vs =
     \<lparr>columns = (if has_col df c then columns df else columns df @ [c]),
      rows = map (\<lambda>(r, v). r\<lparr>cell := (cell r)(c := v)\<rparr>) (zip (rows df) vs)\<rparr>"

definition window_mean :: "fnum list \<Rightarrow> fnum" where
  "window_mean w = series_mean (filter isfinite w)"

definition rolling_mean7 :: "fnum list \<Rightarrow> fnum list" where
  "rolling_mean7 xs = map (\<lambda>i. window_mean (drop (i + 1 - 7) (take (i + 1) xs))) [0..<length xs]"

definition add_rolling :: "frame \<Rightarrow> string \<Rightarrow> string \<Rightarrow> error + frame" where
  "add_rolling df out src = ebind (getcol df src) (\<lambda>xs. Inr (setcol_vals df out (rolling_mean7 xs)))"

section \<open>data_processing.calculate_derived_metrics\<close>

text \<open>
  \<open>np.where(den > 0, num / den, 0)\<close>, row by row. The condition reads the denominator
  column first, so a missing denominator column is the error raised.
\<close>

definition ratio_where :: "fnum \<Rightarrow> fnum \<Rightarrow> fnum" where
  "ratio_where num den = (if fgt den (Fin 0) then fdiv num den else Fin 0)"

definition add_ratio :: "string \<Rightarrow> string \<Rightarrow> string \<Rightarrow> frame \<Rightarrow> error + frame" where
  "add_ratio out num den df =
     ebind (getcol df den) (\<lambda>_.
     ebind (getcol df num) (\<lambda>_.
       Inr (setcol df out (\<lambda>r. ratio_where (cell r num) (cell r den)))))"

definition platforms :: "string list" where
  "platforms = [''facebook'', ''google'', ''tiktok'']"

text \<open>A platform's ratio is added only when both of its columns are there.\<close>

definition add_platform_ratio :: "string \<Rightarrow> string \<Rightarrow> string \<Rightarrow> frame \<Rightarrow> string \<Rightarrow> frame" where
  "add_platform_ratio out_sfx num_sfx den_sfx df platform =
     (let num = platform @ num_sfx; den = platform @ den_sfx in
      if has_col df den \<and> has_col df num
      then setcol df (platform @ out_sfx) (\<lambda>r. ratio_where (cell r num) (cell r den))
      else df)"

text \<open>
  The calendar columns (\<open>day_of_week\<close>, \<open>week_number\<close>, \<open>month\<close>, lines 198 to 200
  of the source) are not numeric ratios and are left out; they do not touch the columns
  modelled here.
\<close>

definition calculate_derived_metrics :: "frame \<Rightarrow> error + frame" where
  "calculate_derived_metrics df =
     ebind (add_ratio ''cac'' ''spend'' ''new customers'' df) (\<lambda>d1.
     ebind (add_ratio ''aov'' ''total_revenue'' ''orders'' d1) (\<lambda>d2.
     ebind (add_ratio ''ctr'' ''clicks'' ''impression'' d2) (\<lambda>d3.
     ebind (add_ratio ''cpc'' ''spend'' ''clicks'' d3) (\<lambda>d4.
     ebind (add_ratio ''conversion_rate'' ''orders'' ''clicks'' d4) (\<lambda>d5.
     (let d6 = foldl (add_platform_ratio ''_ctr'' ''_clicks'' ''_impression'') d5 platforms;
          d7 = foldl (add_platform_ratio ''_cpc'' ''_spend'' ''_clicks'') d6 platforms;
          d8 = foldl (add_platform_ratio ''_roas'' ''_attributed revenue'' ''_spend'') d7 platforms
      in
     ebind (add_ratio ''revenue_per_impression'' ''total_revenue'' ''impression'' d8) (\<lambda>d9.
     (let d10 = sort_values_date d9 in
     ebind (add_rolling d10 ''revenue_7d_ma'' ''total_revenue'') (\<lambda>d11.
     ebind (add_rolling d11 ''roas_7d_ma'' ''marketing_roas'') (\<lambda>d12.
     add_rolling d12 ''orders_7d_ma'' ''orders''))))))))))"

section \<open>metrics_calculator.calculate_daily_performance_metrics\<close>

text \<open>
  \<open>df[num] / df[den]\<close>, then \<open>.replace([np.inf, -np.inf], 0)\<close>: the two infinities
  become 0, every other value stays. The function works on a copy of its argument.
\<close>

definition replace_inf :: "fnum \<Rightarrow> fnum" where
  "replace_inf x = (if x = PInf \<or> x = NInf then Fin 0 else x)"

definition daily_ratio :: "fnum \<Rightarrow> fnum \<Rightarrow> fnum" where
  "daily_ratio num den = replace_inf (fdiv num den)"

definition add_daily :: "string \<Rightarrow> string \<Rightarrow> string \<Rightarrow> frame \<Rightarrow> error + frame" where
  "add_daily out num den df =
     ebind (getcol df num) (\<lambda>_.
     ebind (getcol df den) (\<lambda>_.
       Inr (setcol df out (\<lambda>r. daily_ratio (cell r num) (cell r den)))))"

definition revenue_col_of :: "frame \<Rightarrow> string" where
  "revenue_col_of df = (if has_col df ''total_revenue'' then ''total_revenue'' else ''total revenue'')"

definition orders_col_of :: "frame \<Rightarrow> string" where
  "orders_col_of df = (if has_col df ''orders'' then ''orders'' else ''# of orders'')"

definition calculate_daily_performance_metrics :: "frame \<Rightarrow> error + frame" where
  "calculate_daily_performance_metrics df =
     (let revenue_col = revenue_col_of df; orders_col = orders_col_of df in
     ebind (add_daily ''daily_roas'' ''attributed revenue'' ''spend'' df) (\<lambda>d1.
     ebind (add_daily ''daily_aov'' revenue_col orders_col d1) (\<lambda>d2.
     ebind (add_daily ''daily_cac'' ''spend'' ''new customers'' d2) (\<lambda>d3.
     ebind (add_daily ''daily_conversion_rate'' orders_col ''clicks'' d3) (\<lambda>d4.
     ebind (add_daily ''daily_ctr'' ''clicks'' ''impression'' d4) (\<lambda>d5.
     (let d6 = sort_values_date d5 in
     ebind (add_rolling d6 ''revenue_7d_ma'' revenue_col) (\<lambda>d7.
     ebind (add_rolling d7 ''roas_7d_ma'' ''marketing_roas'') (\<lambda>d8.
     add_rolling d8 ''spend_7d_ma'' ''spend'')))))))))"

section \<open>metrics_calculator.calculate_kpis\<close>


definition vals :: "string \<Rightarrow> row list \<Rightarrow> fnum list" where
  "vals c rs = map (\<lambda>r. cell r c) rs"


text \<open>
  \<open>df_sorted.iloc[:mid_point]\<close> and \<open>df_sorted.iloc[mid_point:]\<close> with
  \<open>mid_point = len(df_sorted) // 2\<close>, of the table sorted by date.
\<close>

definition mid_point :: "frame \<Rightarrow> nat" where
  "mid_point df = length (rows (sort_values_date df)) div 2"


definition second_half :: "frame \<Rightarrow> row list" where
  "second_half df = drop (mid_point df) (rows (sort_values_date df))"


section \<open>Rounding to binary64\<close>

text \<open>
  \<open>round64 x\<close> is the double nearest to the real \<open>x\<close>, ties to the even significand.
  A double of exponent \<open>e\<close> is an integer multiple of \<open>2 ^ (e - 52)\<close>; the exponent of
  \<open>x\<close> is \<open>floor (log2 |x|)\<close>, and not below \<open>-1022\<close> (below it the doubles are the
  subnormal multiples of \<open>2 ^ -1074\<close>); a result of magnitude \<open>2 ^ 1024\<close> or more
  overflows to an infinity. \<open>fl_add\<close>, \<open>fl_mul\<close> and \<open>fl_div\<close> are \<open>+\<close>, \<open>*\<close>
  and \<open>/\<close> on Python floats: the exact operation, then the rounding.
\<close>

definition pow2 :: "int \<Rightarrow> real" where
  "pow2 k = 2 powr real_of_int k"

definition round_half_even :: "real \<Rightarrow> int" where
  "round_half_even x =
     (let f = \<lfloor>x\<rfloor>; d = x - of_int f
      in if d < 1 / 2 then f else if 1 / 2 < d then f + 1 else if even f then f else f + 1)"

definition exponent64 :: "real \<Rightarrow> int" where
  "exponent64 x = max \<lfloor>log 2 \<bar>x\<bar>\<rfloor> (- 1022)"

definition round64 :: "real \<Rightarrow> fnum" where
  "round64 x =
     (if x = 0 then Fin 0
      else let q = pow2 (exponent64 x - 52);
               y = of_int (round_half_even (x / q)) * q
           in if pow2 1024 \<le> \<bar>y\<bar> then (if 0 < x then PInf else NInf) else Fin y)"

fun rnd :: "fnum \<Rightarrow> fnum" where
  "rnd (Fin x) = round64 x"
| "rnd v = v"

definition fl_add :: "fnum \<Rightarrow> fnum \<Rightarrow> fnum" where
  "fl_add x y = rnd (fadd x y)"

definition fl_mul :: "fnum \<Rightarrow> fnum \<Rightarrow> fnum" where
  "fl_mul x y = rnd (fmul x y)"

definition fl_div :: "fnum \<Rightarrow> fnum \<Rightarrow> fnum" where
  "fl_div x y = rnd (fdiv x y)"

section \<open>metrics_calculator.calculate_attribution_model\<close>

text \<open>
  An allocation is a dictionary from platform name to amount. This function reads every
  platform column without a check, so a missing one raises \<open>KeyError\<close>. The column
  totals are the values of \<open>df[col].sum()\<close>, here the sums of the cells (the order in
  which numpy adds up a column is not part of the source); everything the function
  computes from the totals is float arithmetic, rounded at every operation.
\<close>

type_synonym allocation = "string \<rightharpoonup> fnum"

record attribution_models =
  last_click :: allocation
  spend_based :: allocation
  linear :: allocation

definition spend_share :: "fnum \<Rightarrow> fnum \<Rightarrow> fnum \<Rightarrow> fnum" where
  "spend_share platform_spend t_spend t_revenue =
     (if fgt t_spend (Fin 0) then fl_mul (fl_div platform_spend t_spend) t_revenue else Fin 0)"

definition calculate_attribution_model :: "frame \<Rightarrow> error + attribution_models" where
  "calculate_attribution_model df =
     (let revenue_col = revenue_col_of df in
     ebind (getcol df ''facebook_attributed revenue'') (\<lambda>fb_rev.
     ebind (getcol df ''google_attributed revenue'') (\<lambda>gg_rev.
     ebind (getcol df ''tiktok_attributed revenue'') (\<lambda>tt_rev.
     ebind (getcol df ''facebook_spend'') (\<lambda>fb_sp.
     ebind (getcol df ''google_spend'') (\<lambda>gg_sp.
     ebind (getcol df ''tiktok_spend'') (\<lambda>tt_sp.
     ebind (getcol df revenue_col) (\<lambda>rev.
     (let total_facebook_spend = series_sum fb_sp;
          total_google_spend = series_sum gg_sp;
          total_tiktok_spend = series_sum tt_sp;
          t_spend = fl_add (fl_add total_facebook_spend total_google_spend) total_tiktok_spend;
          t_revenue = series_sum rev
      in Inr \<lparr>last_click = [''facebook'' \<mapsto> series_sum fb_rev,
                             ''google'' \<mapsto> series_sum gg_rev,
                             ''tiktok'' \<mapsto> series_sum tt_rev],
               spend_based = [''facebook'' \<mapsto> spend_share total_facebook_spend t_spend t_revenue,
                              ''google'' \<mapsto> spend_share total_google_spend t_spend t_revenue,
                              ''tiktok'' \<mapsto> spend_share total_tiktok_spend t_spend t_revenue],
               linear = [''facebook'' \<mapsto> fl_div t_revenue (Fin 3),
                         ''google'' \<mapsto> fl_div t_revenue (Fin 3),
                         ''tiktok'' \<mapsto> fl_div t_revenue (Fin 3)]\<rparr>)))))))))"

section \<open>Attribution_Analysis: column finder and the four models\<close>

text \<open>
  Strings are ASCII here: \<open>lower\<close> and \<open>title\<close> change the letters A to Z and a to z
  only. The two cases of a letter differ by 32, the bit of weight 32 of the code (the sixth
  argument of \<open>Char\<close>), set in the lower case. \<open>contains s sub\<close> is Python's
  \<open>sub in s\<close>.
\<close>

definition is_upper :: "char \<Rightarrow> bool" where
  "is_upper c = (65 \<le> (of_char c :: nat) \<and> (of_char c :: nat) \<le> 90)"

definition is_lower :: "char \<Rightarrow> bool" where
  "is_lower c = (97 \<le> (of_char c :: nat) \<and> (of_char c :: nat) \<le> 122)"

definition lower_char :: "char \<Rightarrow> char" where
  "lower_char c =
     (if is_upper c
      then (case c of Char b0 b1 b2 b3 b4 b5 b6 b7 \<Rightarrow> Char b0 b1 b2 b3 b4 True b6 b7)
      else c)"

definition upper_char :: "char \<Rightarrow> char" where
  "upper_char c =
     (if is_lower c
      then (case c of Char b0 b1 b2 b3 b4 b5 b6 b7 \<Rightarrow> Char b0 b1 b2 b3 b4 False b6 b7)
      else c)"

definition lower :: "string \<Rightarrow> string" where
  "lower s = map lower_char s"

fun title_from :: "bool \<Rightarrow> string \<Rightarrow> string" where
  "title_from prev [] = []"
| "title_from prev (c # cs) =
     (if is_upper c \<or> is_lower c
      then (if prev then lower_char c else upper_char c) # title_from True cs
      else c # title_from False cs)"

definition title :: "string \<Rightarrow> string" where
  "title s = title_from False s"

fun contains :: "string \<Rightarrow> string \<Rightarrow> bool" where
  "contains [] sub = (sub = [])"
| "contains (c # cs) sub = (take (length sub) (c # cs) = sub \<or> contains cs sub)"

text \<open>
  Each search of \<open>smart_column_finder\<close> walks \<open>df.columns\<close> and stops at the first
  match. The date column of the source's table matches none of the searches.
\<close>

definition is_total_revenue_col :: "string \<Rightarrow> bool" where
  "is_total_revenue_col col =
     ((contains (lower col) ''total'' \<and> contains (lower col) ''revenue'') \<or> lower col = ''revenue'')"

definition is_platform_col :: "string \<Rightarrow> string \<Rightarrow> string \<Rightarrow> bool" where
  "is_platform_col platform word col =
     (contains (lower col) (lower platform) \<and> contains (lower col) word)"

definition map_first :: "(string \<rightharpoonup> string) \<Rightarrow> string \<Rightarrow> (string \<Rightarrow> bool) \<Rightarrow> string list
    \<Rightarrow> (string \<rightharpoonup> string)" where
  "map_first m key P cols = (case find P cols of None \<Rightarrow> m | Some col \<Rightarrow> m(key \<mapsto> col))"

definition finder_platform_step :: "string list \<Rightarrow> (string \<rightharpoonup> string) \<Rightarrow> string
    \<Rightarrow> (string \<rightharpoonup> string)" where
  "finder_platform_step cols m platform =
     (let m1 = map_first m (platform @ ''_attributed_revenue'')
                 (is_platform_col platform ''revenue'') cols
      in map_first m1 (platform @ ''_spend'') (is_platform_col platform ''spend'') cols)"

definition smart_column_finder :: "frame \<Rightarrow> (string \<rightharpoonup> string)" where
  "smart_column_finder df =
     (let cols = columns df;
          m0 = map_first Map.empty ''total_revenue'' is_total_revenue_col cols;
          m1 = foldl (finder_platform_step cols) m0 platforms
      in map_first m1 ''attribution_rate''
           (\<lambda>col. contains (lower col) ''attribution'' \<and> contains (lower col) ''rate'') cols)"

text \<open>
  \<open>calculate_attribution_models_smart\<close>. \<open>mapped_col\<close> is the test
  \<open>col = column_mapping.get(key); col and col in df.columns\<close>. The first loop fills
  last-click and time-decay and adds up the spend of the platforms whose spend column is
  there; the second loop fills spend-based; linear is written out with its own keys. The
  function returns \<open>None\<close> when the mapping has no total revenue column. As in
  \<open>calculate_attribution_model\<close>, the arithmetic on the column totals is rounded at
  every operation (the time-decay column, which no statement below depends on, is the
  sum of the weighted cells).
\<close>

record smart_models = attribution_models +
  time_decay :: allocation

definition linspace :: "real \<Rightarrow> real \<Rightarrow> nat \<Rightarrow> real list" where
  "linspace a b n =
     (if n = 0 then [] else if n = 1 then [a]
      else map (\<lambda>i. a + real i * ((b - a) / real (n - 1))) [0..<n])"

definition decay_weights :: "nat \<Rightarrow> fnum list" where
  "decay_weights n = map (\<lambda>x. Fin (exp x)) (linspace (- 2) 0 n)"

definition mapped_col :: "frame \<Rightarrow> (string \<rightharpoonup> string) \<Rightarrow> string \<Rightarrow> string option" where
  "mapped_col df cm key =
     (case cm key of
        None \<Rightarrow> None
      | Some c \<Rightarrow> if c \<noteq> [] \<and> has_col df c then Some c else None)"

definition smart_platform_step ::
    "frame \<Rightarrow> (string \<rightharpoonup> string) \<Rightarrow> allocation \<times> allocation \<times> fnum \<Rightarrow> string
      \<Rightarrow> allocation \<times> allocation \<times> fnum" where
  "smart_platform_step df cm st platform =
     (case st of (lc, td, t_spend) \<Rightarrow>
        (let platform_title = title platform;
             lc' = (case mapped_col df cm (platform @ ''_attributed_revenue'') of
                      Some attr_col \<Rightarrow> lc(platform_title \<mapsto> series_sum (vals attr_col (rows df)))
                    | None \<Rightarrow> lc(platform_title \<mapsto> Fin 0));
             td' = (case mapped_col df cm (platform @ ''_attributed_revenue'') of
                      Some attr_col \<Rightarrow>
                        td(platform_title \<mapsto>
                             series_sum (map2 fmul (vals attr_col (rows (sort_values_date df)))
                                                   (decay_weights (length (rows df)))))
                    | None \<Rightarrow> td(platform_title \<mapsto> Fin 0));
             t_spend' = (case mapped_col df cm (platform @ ''_spend'') of
                           Some spend_col \<Rightarrow> fl_add t_spend (series_sum (vals spend_col (rows df)))
                         | None \<Rightarrow> t_spend)
         in (lc', td', t_spend')))"

definition smart_spend_step ::
    "frame \<Rightarrow> (string \<rightharpoonup> string) \<Rightarrow> fnum \<Rightarrow> fnum \<Rightarrow> allocation \<Rightarrow> string \<Rightarrow> allocation" where
  "smart_spend_step df cm t_spend t_revenue sb platform =
     sb(title platform \<mapsto>
          (case mapped_col df cm (platform @ ''_spend'') of
             Some spend_col \<Rightarrow>
               if fgt t_spend (Fin 0)
               then fl_mul (fl_div (series_sum (vals spend_col (rows df))) t_spend) t_revenue
               else Fin 0
           | None \<Rightarrow> Fin 0))"

definition smart_first_loop ::
    "frame \<Rightarrow> (string \<rightharpoonup> string) \<Rightarrow> allocation \<times> allocation \<times> fnum" where
  "smart_first_loop df cm =
     foldl (smart_platform_step df cm) (Map.empty, Map.empty, Fin 0) platforms"

definition calculate_attribution_models_smart ::
    "frame \<Rightarrow> (string \<rightharpoonup> string) \<Rightarrow> error + smart_models option" where
  "calculate_attribution_models_smart df cm =
     (case cm ''total_revenue'' of
        None \<Rightarrow> Inr None
      | Some revenue_col \<Rightarrow>
          ebind (getcol df revenue_col) (\<lambda>rev.
            (let t_revenue = series_sum rev in
             case smart_first_loop df cm of
               (lc, td, t_spend) \<Rightarrow>
                 Inr (Some \<lparr>last_click = lc,
                            spend_based =
                              foldl (smart_spend_step df cm t_spend t_revenue) Map.empty platforms,
                            linear = [''Facebook'' \<mapsto> fl_div t_revenue (Fin 3),
                                      ''Google'' \<mapsto> fl_div t_revenue (Fin 3),
                                      ''TikTok'' \<mapsto> fl_div t_revenue (Fin 3)],
                            time_decay = td\<rparr>))))"

section \<open>Trends_Insights.calculate_trend_direction\<close>

text \<open>
  \<open>fval\<close> reads a finite value. \<open>ols_slope\<close> is the coefficient that scikit-learn's
  \<open>LinearRegression\<close> (an external library) fits for one explanatory variable, the row
  index \<open>0, 1, ...\<close>, with an intercept; \<open>fit\<close> raises \<open>ValueError\<close> when the
  values contain NaN or an infinity. \<open>sklearn\<close> is the module's flag
  \<open>SKLEARN_AVAILABLE\<close>. \<open>trend_body\<close> is the body of the \<open>try\<close>; the bare
  \<open>except\<close> turns every error of it into \<open>("stable", 0)\<close>.
\<close>

fun fval :: "fnum \<Rightarrow> real" where
  "fval (Fin a) = a"
| "fval x = 0"

definition rmean :: "real list \<Rightarrow> real" where
  "rmean xs = sum_list xs / real (length xs)"

definition ols_slope :: "real list \<Rightarrow> real" where
  "ols_slope ys =
     (let n = length ys;
          xs = map real [0..<n];
          xbar = rmean xs;
          ybar = rmean ys
      in sum_list (map2 (\<lambda>x y. (x - xbar) * (y - ybar)) xs ys)
           / sum_list (map (\<lambda>x. (x - xbar) * (x - xbar)) xs))"

definition linear_regression_coef :: "fnum list \<Rightarrow> error + fnum" where
  "linear_regression_coef y =
     (if list_all isfinite y then Inr (Fin (ols_slope (map fval y))) else Inl ValueError)"

definition classify :: "fnum \<Rightarrow> fnum list \<Rightarrow> string \<times> fnum" where
  "classify slope y =
     (if flt (fabs slope) (fmul (Fin (1 / 100)) (np_mean y)) then (''stable'', slope)
      else if fgt slope (Fin 0) then (''increasing'', slope)
      else (''decreasing'', slope))"

definition trend_body :: "bool \<Rightarrow> fnum list \<Rightarrow> error + string \<times> fnum" where
  "trend_body sklearn y =
     (if sklearn
      then ebind (linear_regression_coef y) (\<lambda>slope. Inr (classify slope y))
      else Inr (classify (fdiv (fsub (last y) (hd y)) (Fin (real (length y)))) y))"

definition calculate_trend_direction :: "bool \<Rightarrow> fnum list \<Rightarrow> string \<times> fnum" where
  "calculate_trend_direction sklearn series =
     (if length series < 2 then (''stable'', Fin 0)
      else case trend_body sklearn series of
             Inl e \<Rightarrow> (''stable'', Fin 0)
           | Inr res \<Rightarrow> res)"

section \<open>Example tables\<close>

definition mk_row :: "int \<Rightarrow> (string \<times> fnum) list \<Rightarrow> row" where
  "mk_row d kvs = \<lparr>date = d, cell = (\<lambda>c. case map_of kvs c of Some v \<Rightarrow> v | None \<Rightarrow> NaN)\<rparr>"

definition one_day :: frame where
  "one_day =
     \<lparr>columns = [''spend'', ''attributed_revenue'', ''total_revenue'', ''orders''],
      rows = [mk_row 1 [(''spend'', Fin 100), (''attributed_revenue'', Fin 250),
                        (''total_revenue'', Fin 500), (''orders'', Fin 10)]]\<rparr>"

text \<open>One day of a file that has no spend column.\<close>

definition one_day_no_spend :: frame where
  "one_day_no_spend =
     \<lparr>columns = [''total_revenue'', ''orders''],
      rows = [mk_row 1 [(''total_revenue'', Fin 500), (''orders'', Fin 10)]]\<rparr>"

definition two_days :: frame where
  "two_days =
     \<lparr>columns = [''spend'', ''attributed_revenue'', ''total_revenue'', ''orders''],
      rows = [mk_row 1 [(''spend'', Fin 100), (''attributed_revenue'', Fin 250),
                        (''total_revenue'', Fin 500), (''orders'', Fin 10)],
              mk_row 2 [(''spend'', Fin 0), (''attributed_revenue'', NaN),
                        (''total_revenue'', Fin (- 20)), (''orders'', Fin 12)]]\<rparr>"

text \<open>A day without any marketing activity: every count and amount is 0.\<close>

definition quiet_day :: frame where
  "quiet_day =
     \<lparr>columns = [''total_revenue'', ''orders'', ''new customers'', ''spend'',
                 ''attributed revenue'', ''clicks'', ''impression'', ''marketing_roas''],
      rows = [mk_row 1 [(''total_revenue'', Fin 0), (''orders'', Fin 0),
                        (''new customers'', Fin 0), (''spend'', Fin 0),
                        (''attributed revenue'', Fin 0), (''clicks'', Fin 0),
                        (''impression'', Fin 0), (''marketing_roas'', Fin 0)]]\<rparr>"


definition column_of :: "string \<Rightarrow> error + frame \<Rightarrow> error + fnum list" where
  "column_of c res = map_sum id (vals c \<circ> rows) res"







section \<open>The outlier round in words\<close>
















section \<open>Reading allocations\<close>

text \<open>
  \<open>alloc_sum m keys\<close> is Python's \<open>sum(m[k] for k in keys)\<close>: it starts from 0 and
  adds the values from left to right, each addition a float addition; it is \<open>None\<close>
  when a key is missing. \<open>within_tolerance x y\<close> is the mathematical statement
  \<open>|x - y| \<le> 1e-6 * |y|\<close>. \<open>finite_positive\<close> holds of the finite values above 0.
  \<open>spend_in_range\<close> holds of a total that is 0 or lies between \<open>2 ^ -300\<close> and
  \<open>2 ^ 300\<close>, \<open>revenue_in_range\<close> of a total between \<open>2 ^ -300\<close> and \<open>2 ^ 300\<close>.
\<close>

fun alloc_sum_from :: "fnum \<Rightarrow> allocation \<Rightarrow> string list \<Rightarrow> fnum option" where
  "alloc_sum_from acc m [] = Some acc"
| "alloc_sum_from acc m (k # ks) =
     (case m k of
        None \<Rightarrow> None
      | Some v \<Rightarrow> alloc_sum_from (fl_add acc v) m ks)"

definition alloc_sum :: "allocation \<Rightarrow> string list \<Rightarrow> fnum option" where
  "alloc_sum m keys = alloc_sum_from (Fin 0) m keys"

fun spend_in_range :: "fnum \<Rightarrow> bool" where
  "spend_in_range (Fin a) = (a = 0 \<or> (pow2 (- 300) \<le> a \<and> a \<le> pow2 300))"
| "spend_in_range x = False"

fun revenue_in_range :: "fnum \<Rightarrow> bool" where
  "revenue_in_range (Fin a) = (pow2 (- 300) \<le> a \<and> a \<le> pow2 300)"
| "revenue_in_range x = False"

definition model_sum ::
    "(attribution_models \<Rightarrow> allocation) \<Rightarrow> error + attribution_models \<Rightarrow> fnum option" where
  "model_sum model res =
     (case res of Inr am \<Rightarrow> alloc_sum (model am) platforms | Inl e \<Rightarrow> None)"

definition within_tolerance :: "fnum \<Rightarrow> fnum \<Rightarrow> bool" where
  "within_tolerance x y = fle (fabs (fsub x y)) (fmul (Fin (1 / 1000000)) (fabs y))"

fun finite_positive :: "fnum \<Rightarrow> bool" where
  "finite_positive (Fin a) = (0 < a)"
| "finite_positive x = False"

definition allocation_of ::
    "(smart_models \<Rightarrow> allocation) \<Rightarrow> string \<Rightarrow> error + smart_models option \<Rightarrow> fnum option" where
  "allocation_of model key res = (case res of Inr (Some sm) \<Rightarrow> model sm key | _ \<Rightarrow> None)"

text \<open>
  Two days of the raw file with all three platforms, and two days of a file without the
  TikTok columns.
\<close>

definition campaign_row :: "int \<Rightarrow> row" where
  "campaign_row d =
     mk_row d [(''total revenue'', Fin 500),
               (''facebook_spend'', Fin 60), (''google_spend'', Fin 40),
               (''tiktok_spend'', Fin 0),
               (''facebook_attributed revenue'', Fin 300),
               (''google_attributed revenue'', Fin 150),
               (''tiktok_attributed revenue'', Fin 0)]"

definition campaign_days :: frame where
  "campaign_days =
     \<lparr>columns = [''total revenue'', ''facebook_spend'', ''google_spend'', ''tiktok_spend'',
                 ''facebook_attributed revenue'', ''google_attributed revenue'',
                 ''tiktok_attributed revenue''],
      rows = [campaign_row 1, campaign_row 2]\<rparr>"

text \<open>
  One day on which a refund makes the Google spend negative and nearly cancels the
  Facebook spend (\<open>2 ^ 53\<close> against \<open>2 - 2 ^ 53\<close>), one day with a total revenue
  of five times the smallest positive double, and one day with two spends of
  \<open>2 ^ 1023\<close>, whose sum is beyond the largest double.
\<close>

definition attribution_day :: "real \<Rightarrow> real \<Rightarrow> real \<Rightarrow> real \<Rightarrow> frame" where
  "attribution_day revenue fb_spend gg_spend tt_spend =
     \<lparr>columns = [''total revenue'', ''facebook_spend'', ''google_spend'', ''tiktok_spend'',
                 ''facebook_attributed revenue'', ''google_attributed revenue'',
                 ''tiktok_attributed revenue''],
      rows = [mk_row 1 [(''total revenue'', Fin revenue),
                        (''facebook_spend'', Fin fb_spend), (''google_spend'', Fin gg_spend),
                        (''tiktok_spend'', Fin tt_spend),
                        (''facebook_attributed revenue'', Fin 0),
                        (''google_attributed revenue'', Fin 0),
                        (''tiktok_attributed revenue'', Fin 0)]]\<rparr>"

definition cancelling_day :: frame where
  "cancelling_day = attribution_day 5 9007199254740992 (- 9007199254740990) 0"

definition tiny_day :: frame where
  "tiny_day = attribution_day (5 / 2 ^ 1074) 60 40 0"

definition overflow_day :: frame where
  "overflow_day = attribution_day 5 (2 ^ 1023) (2 ^ 1023) 0"

definition two_platform_days :: frame where
  "two_platform_days =
     \<lparr>columns = [''total revenue'', ''facebook_spend'', ''google_spend'',
                 ''facebook_attributed revenue'', ''google_attributed revenue''],
      rows = [campaign_row 1, campaign_row 2]\<rparr>"

text \<open>
  The total platform spend as each of the two functions computes it: the sum of the three
  column sums, and the value of \<open>total_spend\<close> after the first loop.
\<close>

definition platform_spend_total :: "frame \<Rightarrow> fnum" where
  "platform_spend_total df =
     fl_add (fl_add (series_sum (vals ''facebook_spend'' (rows df)))
                    (series_sum (vals ''google_spend'' (rows df))))
            (series_sum (vals ''tiktok_spend'' (rows df)))"

section \<open>Bounds on rounding errors\<close>

text \<open>
  \<open>near k E v\<close>: the computed \<open>v\<close> is the exact \<open>E\<close> up to a relative error of
  \<open>k / 2 ^ 50\<close>. \<open>rng lo hi E\<close>: the exact \<open>E\<close> is 0, or lies between \<open>2 ^ lo\<close> and
  \<open>2 ^ hi\<close>.
\<close>

definition near :: "nat \<Rightarrow> real \<Rightarrow> real \<Rightarrow> bool" where
  "near k E v = ((1 - real k / 2 ^ 50) * E \<le> v \<and> v \<le> (1 + real k / 2 ^ 50) * E)"

definition rng :: "int \<Rightarrow> int \<Rightarrow> real \<Rightarrow> bool" where
  "rng lo hi E = (0 \<le> E \<and> (E = 0 \<or> pow2 lo \<le> E) \<and> E \<le> pow2 hi)"

definition smart_total_spend :: "frame \<Rightarrow> (string \<rightharpoonup> string) \<Rightarrow> fnum" where
  "smart_total_spend df cm = snd (snd (smart_first_loop df cm))"

section \<open>Least squares\<close>




section \<open>Facts about the numbers\<close>

lemma fle_NaN_right [simp]: "fle x NaN = False"
  by (cases x) auto

lemma fmul_NaN_right [simp]: "fmul x NaN = NaN"
  by (cases x) auto

section \<open>Cleaning: shape of the result\<close>

lemma rows_fill [simp]: "length (rows (fill_numeric df)) = length (rows df)"
  by (simp add: fill_numeric_def)

lemma cols_fill [simp]: "columns (fill_numeric df) = columns df"
  by (simp add: fill_numeric_def)

lemma rows_setcol [simp]: "length (rows (setcol df c f)) = length (rows df)"
  by (simp add: setcol_def)

lemma rows_clip_col [simp]: "length (rows (clip_col df c)) = length (rows df)"
  by (simp add: clip_col_def)

lemma cols_clip_col [simp]: "columns (clip_col df c) = columns df"
  by (simp add: clip_col_def setcol_def)

lemma rows_foldl_clip: "length (rows (foldl clip_col df cs)) = length (rows df)"
  by (induction cs arbitrary: df) simp_all

lemma cols_foldl_clip: "columns (foldl clip_col df cs) = columns df"
  by (induction cs arbitrary: df) simp_all

lemma rows_clip [simp]: "length (rows (clip_financial df)) = length (rows df)"
  by (simp add: clip_financial_def rows_foldl_clip)

lemma cols_clip [simp]: "columns (clip_financial df) = columns df"
  by (simp add: clip_financial_def cols_foldl_clip)

lemma add_calculated_roas_Inr:
  "add_calculated_roas df = Inr d \<Longrightarrow>
     length (rows d) = length (rows df) \<and> set (columns df) \<subseteq> set (columns d)"
  by (auto simp: add_calculated_roas_def ebind_def getcol_def setcol_def split: if_splits)

lemma add_calculated_roas_returns:
  "has_col df ''spend'' \<Longrightarrow> has_col df ''attributed_revenue'' \<Longrightarrow>
     \<exists>d. add_calculated_roas df = Inr d"
  by (simp add: add_calculated_roas_def ebind_def getcol_def)

lemma vals_setcol:
  "vals c (rows (setcol d c' f)) = (if c = c' then map f (rows d) else vals c (rows d))"
  by (simp add: vals_def setcol_def comp_def)

lemma vals_fill:
  "vals c (rows (fill_numeric d)) = (if has_col d c then map fillna0 (vals c (rows d)) else vals c (rows d))"
  by (simp add: vals_def fill_numeric_def comp_def)

lemma vals_clip_col:
  "vals c (rows (clip_col d c')) =
     (if c = c' \<and> has_col d c then map clip_lower0 (vals c (rows d)) else vals c (rows d))"
  by (auto simp: clip_col_def vals_def setcol_def comp_def)

lemma clip_lower0_idem: "clip_lower0 (clip_lower0 x) = clip_lower0 x"
  by (cases x) (simp_all add: clip_lower0_def)

lemma has_col_clip_col [simp]: "has_col (clip_col d c') c = has_col d c"
  by (simp add: has_col_def)

lemma vals_foldl_clip:
  "vals c (rows (foldl clip_col d cs)) =
     (if c \<in> set cs \<and> has_col d c then map clip_lower0 (vals c (rows d)) else vals c (rows d))"
proof (induction cs arbitrary: d)
  case Nil
  show ?case by simp
next
  case (Cons a cs)
  show ?case
    by (simp add: Cons.IH vals_clip_col clip_lower0_idem comp_def)
qed

lemma vals_add_calculated_roas:
  assumes "add_calculated_roas d = Inr d0" "c \<noteq> ''calculated_marketing_roas''"
  shows "vals c (rows d0) = vals c (rows d)"
  using assms
  by (auto simp: add_calculated_roas_def ebind_def getcol_def vals_setcol split: if_splits)

lemma columns_add_calculated_roas:
  assumes "add_calculated_roas d = Inr d0"
  shows "columns d0 = (if has_col d ''calculated_marketing_roas'' then columns d
                       else columns d @ [''calculated_marketing_roas''])"
  using assms
  by (auto simp: add_calculated_roas_def ebind_def getcol_def setcol_def split: if_splits)

lemma validate_and_clean_data_returns:
  assumes "has_col df ''spend''" "has_col df ''attributed_revenue''"
  shows "\<exists>d. validate_and_clean_data df = Inr d"
proof -
  from assms have "has_col (clip_financial (fill_numeric df)) ''spend''"
    and "has_col (clip_financial (fill_numeric df)) ''attributed_revenue''"
    by (simp_all add: has_col_def)
  then obtain d where "add_calculated_roas (clip_financial (fill_numeric df)) = Inr d"
    using add_calculated_roas_returns by blast
  then show ?thesis by (simp add: validate_and_clean_data_def ebind_def)
qed

lemma rows_remove_outliers_col: "length (rows (remove_outliers_col df c)) \<le> length (rows df)"
  by (simp add: remove_outliers_col_def Let_def)

lemma cols_remove_outliers_col [simp]: "columns (remove_outliers_col df c) = columns df"
  by (simp add: remove_outliers_col_def Let_def)

lemma rows_foldl_outliers: "length (rows (foldl remove_outliers_col df cs)) \<le> length (rows df)"
proof (induction cs arbitrary: df)
  case Nil
  show ?case by simp
next
  case (Cons c cs)
  have "length (rows (foldl remove_outliers_col (remove_outliers_col df c) cs))
          \<le> length (rows (remove_outliers_col df c))"
    by (rule Cons.IH)
  also have "\<dots> \<le> length (rows df)" by (rule rows_remove_outliers_col)
  finally show ?case by simp
qed

text \<open>
  C6. Whenever \<open>validate_and_clean_data\<close> returns a table, that table has at most as
  many rows as the input table: filling, clipping and the added column keep every row,
  and each outlier round keeps a sublist of the rows.
\<close>

theorem clean_never_adds_rows:
  assumes "validate_and_clean_data df = Inr df'"
  shows "length (rows df') \<le> length (rows df)"
proof -
  from assms obtain d where d: "add_calculated_roas (clip_financial (fill_numeric df)) = Inr d"
    and df': "df' = remove_outliers d"
    by (auto simp: validate_and_clean_data_def ebind_def split: sum.splits)
  from add_calculated_roas_Inr [OF d] have "length (rows d) = length (rows df)" by simp
  with df' show ?thesis
    using rows_foldl_outliers [of d outlier_columns] by (simp add: remove_outliers_def)
qed

theorem clean_never_adds_rows_witness:
  "\<exists>d. validate_and_clean_data two_days = Inr d \<and> length (rows d) \<le> 2"
proof -
  have "has_col two_days ''spend''" "has_col two_days ''attributed_revenue''"
    by (simp_all add: has_col_def two_days_def)
  then obtain d where d: "validate_and_clean_data two_days = Inr d"
    using validate_and_clean_data_returns by blast
  from clean_never_adds_rows [OF d] have "length (rows d) \<le> 2"
    by (simp add: two_days_def)
  with d show ?thesis by blast
qed

section \<open>Cleaning a table of one row\<close>

lemma series_std_short: "length xs < 2 \<Longrightarrow> series_std xs = NaN"
proof -
  assume "length xs < 2"
  moreover have "length (dropna xs) \<le> length xs" by (simp add: dropna_def)
  ultimately show ?thesis by (simp add: series_std_def Let_def)
qed

lemma remove_outliers_col_short:
  "has_col df c \<Longrightarrow> length (rows df) < 2 \<Longrightarrow> rows (remove_outliers_col df c) = []"
  by (simp add: remove_outliers_col_def Let_def series_std_short keeps_def)

lemma remove_outliers_col_empty: "rows df = [] \<Longrightarrow> rows (remove_outliers_col df c) = []"
  by (simp add: remove_outliers_col_def Let_def)

lemma foldl_outliers_empty: "rows df = [] \<Longrightarrow> rows (foldl remove_outliers_col df cs) = []"
  by (induction cs arbitrary: df) (simp_all add: remove_outliers_col_empty)

lemma foldl_outliers_short:
  "length (rows df) < 2 \<Longrightarrow> \<exists>c \<in> set cs. has_col df c \<Longrightarrow>
     rows (foldl remove_outliers_col df cs) = []"
proof (induction cs arbitrary: df)
  case Nil
  then show ?case by simp
next
  case (Cons c cs)
  show ?case
  proof (cases "has_col df c")
    case True
    with Cons.prems have "rows (remove_outliers_col df c) = []"
      by (simp add: remove_outliers_col_short)
    then show ?thesis by (simp add: foldl_outliers_empty)
  next
    case False
    then have same: "remove_outliers_col df c = df" by (simp add: remove_outliers_col_def)
    from False Cons.prems have "\<exists>c \<in> set cs. has_col df c" by auto
    with Cons.IH [of df] Cons.prems same show ?thesis by simp
  qed
qed

text \<open>
  C9 (as amended). A table of exactly one row that has the columns \<open>spend\<close> and
  \<open>attributed_revenue\<close>, which the function reads first, and at least one of the
  columns \<open>marketing_roas\<close>, \<open>total_revenue\<close>, \<open>orders\<close> comes back empty: the
  sample standard deviation of one value is NaN, the test
  \<open>abs(value - mean) <= 3 * std\<close> is false for the row, and the row is dropped.
\<close>

theorem single_row_table_is_emptied:
  assumes one: "length (rows df) = 1"
    and col: "has_col df ''marketing_roas'' \<or> has_col df ''total_revenue'' \<or> has_col df ''orders''"
    and req: "has_col df ''spend''" "has_col df ''attributed_revenue''"
  shows "\<exists>df'. validate_and_clean_data df = Inr df' \<and> rows df' = []"
proof -
  let ?p = "clip_financial (fill_numeric df)"
  from req have "has_col ?p ''spend''" "has_col ?p ''attributed_revenue''"
    by (simp_all add: has_col_def)
  then obtain d where d: "add_calculated_roas ?p = Inr d"
    using add_calculated_roas_returns by blast
  from add_calculated_roas_Inr [OF d] one
  have len: "length (rows d) < 2" and sub: "set (columns df) \<subseteq> set (columns d)" by simp_all
  from col sub have "\<exists>c \<in> set outlier_columns. has_col d c"
    by (auto simp: has_col_def outlier_columns_def)
  with len have "rows (remove_outliers d) = []"
    by (simp add: remove_outliers_def foldl_outliers_short)
  with d show ?thesis by (simp add: validate_and_clean_data_def ebind_def)
qed

theorem single_row_table_is_emptied_witness:
  "\<exists>df'. validate_and_clean_data one_day = Inr df' \<and> rows df' = []"
  using single_row_table_is_emptied [of one_day]
  by (simp add: one_day_def has_col_def)

text \<open>
  Without the \<open>spend\<close> column no table comes back: a table of one row with
  \<open>total_revenue\<close> and \<open>orders\<close> raises \<open>KeyError\<close> where the computed ROAS
  reads \<open>df['spend']\<close>, before the outlier loop.
\<close>

theorem single_row_table_counterexample:
  "validate_and_clean_data one_day_no_spend = Inl (KeyError ''spend'') \<and>
   length (rows one_day_no_spend) = 1 \<and>
   has_col one_day_no_spend ''total_revenue'' \<and> has_col one_day_no_spend ''orders''"
  by (simp add: validate_and_clean_data_def add_calculated_roas_def ebind_def getcol_def
      has_col_def one_day_no_spend_def)

section \<open>Ratio columns\<close>

lemma ratio_where_Fin:
  "ratio_where (Fin a) (Fin b) = (if 0 < b then Fin (a / b) else Fin 0)"
  by (simp add: ratio_where_def fgt_def)

lemma ratio_where_finite:
  "isfinite num \<Longrightarrow> isfinite den \<Longrightarrow> isfinite (ratio_where num den)"
  by (cases num; cases den)
    (simp_all add: ratio_where_def fgt_def isfinite_def isnan_def isinf_def)

lemma ratio_where_zero_den: "ratio_where num (Fin 0) = Fin 0"
  by (simp add: ratio_where_def fgt_def)

lemma daily_ratio_zero_den: "daily_ratio (Fin a) (Fin 0) = (if a = 0 then NaN else Fin 0)"
  by (simp add: daily_ratio_def replace_inf_def)

text \<open>
  C1. The ratio columns of \<open>calculate_derived_metrics\<close> are guarded by the test
  \<open>den > 0\<close>: they are 0 on a zero denominator (\<open>ratio_where_zero_den\<close>) and
  finite on finite operands (\<open>ratio_where_finite\<close>). The daily
  columns of \<open>calculate_daily_performance_metrics\<close> divide first and replace only the
  two infinities afterwards, so \<open>0 / 0\<close> stays NaN: on a day with no spend, no
  attributed revenue, no orders, no clicks and no impressions, \<open>daily_roas\<close>,
  \<open>daily_aov\<close>, \<open>daily_cac\<close>, \<open>daily_conversion_rate\<close> and \<open>daily_ctr\<close> are
  all NaN, not 0.
\<close>

theorem daily_ratios_of_quiet_day_are_nan:
  "column_of ''daily_roas'' (calculate_daily_performance_metrics quiet_day) = Inr [NaN] \<and>
   column_of ''daily_aov'' (calculate_daily_performance_metrics quiet_day) = Inr [NaN] \<and>
   column_of ''daily_cac'' (calculate_daily_performance_metrics quiet_day) = Inr [NaN] \<and>
   column_of ''daily_conversion_rate'' (calculate_daily_performance_metrics quiet_day) = Inr [NaN] \<and>
   column_of ''daily_ctr'' (calculate_daily_performance_metrics quiet_day) = Inr [NaN]"
  by (simp add: calculate_daily_performance_metrics_def quiet_day_def mk_row_def
      revenue_col_of_def orders_col_of_def has_col_def add_daily_def ebind_def getcol_def
      setcol_def daily_ratio_def replace_inf_def sort_values_date_def add_rolling_def
      setcol_vals_def rolling_mean7_def vals_def Let_def column_of_def)

section \<open>Sums and means of finite values\<close>



lemma foldl_fadd_Fin: "foldl fadd (Fin a) (map Fin xs) = Fin (a + sum_list xs)"
  by (induction xs arbitrary: a) (simp_all add: add.assoc)

lemma np_sum_Fin: "np_sum (map Fin xs) = Fin (sum_list xs)"
  by (simp add: np_sum_def foldl_fadd_Fin)

lemma dropna_Fin: "dropna (map Fin xs) = map Fin xs"
  by (induction xs) (simp_all add: dropna_def isnan_def)

lemma series_sum_Fin: "series_sum (map Fin xs) = Fin (sum_list xs)"
  by (simp add: series_sum_def dropna_Fin np_sum_Fin)


section \<open>KPIs: the two halves and the growth rates\<close>



lemma length_second_half: "length (second_half df) = length (rows df) - length (rows df) div 2"
  by (simp add: second_half_def mid_point_def sort_values_date_def)





section \<open>The outlier rounds and the sample standard deviation\<close>












































section \<open>Cleaning and the caller's table\<close>

lemma foldl_outlier_step:
  assumes "p < length h"
  shows "\<exists>hf q. foldl outlier_step (h, p) cs = (hf, q) \<and> q < length hf \<and>
           length h \<le> length hf \<and> (\<forall>i < length h. hf ! i = h ! i) \<and>
           hf ! q = foldl remove_outliers_col (h ! p) cs"
  using assms
proof (induction cs arbitrary: h p)
  case Nil
  then show ?case by simp
next
  case (Cons c cs)
  show ?case
  proof (cases "has_col (h ! p) c")
    case False
    then have step: "outlier_step (h, p) c = (h, p)"
      and same: "remove_outliers_col (h ! p) c = h ! p"
      by (simp_all add: outlier_step_def remove_outliers_col_def)
    from Cons.IH [OF Cons.prems] step same show ?thesis by simp
  next
    case True
    let ?h = "h @ [remove_outliers_col (h ! p) c]"
    from True have step: "outlier_step (h, p) c = (?h, length h)"
      by (simp add: outlier_step_def)
    have "length h < length ?h" by simp
    from Cons.IH [OF this] obtain hf q where
      f: "foldl outlier_step (?h, length h) cs = (hf, q)" and q: "q < length hf"
      and len: "length ?h \<le> length hf" and old: "\<forall>i < length ?h. hf ! i = ?h ! i"
      and res: "hf ! q = foldl remove_outliers_col (?h ! length h) cs"
      by blast
    have "\<forall>i < length h. hf ! i = h ! i"
    proof (intro allI impI)
      fix i assume i: "i < length h"
      with old have "hf ! i = ?h ! i" by simp
      with i show "hf ! i = h ! i" by (simp add: nth_append)
    qed
    with f q len res step show ?thesis by simp
  qed
qed

text \<open>
  C8 (as amended). \<open>validate_and_clean_data\<close> writes into the table object the caller
  passed: after a call that returns, that object is the filled and clipped table with the
  column \<open>calculated_marketing_roas\<close> added. It still has all its rows, since only the
  outlier rounds make new tables; every other table of the store is unchanged; and the
  table returned is the value of \<open>validate_and_clean_data\<close>.
\<close>

theorem clean_writes_into_callers_table:
  assumes p: "p < length h" and ret: "validate_and_clean_data_st h p = (h', Inr q)"
  shows "add_calculated_roas (clip_financial (fill_numeric (h ! p))) = Inr (h' ! p) \<and>
         length (rows (h' ! p)) = length (rows (h ! p)) \<and>
         (\<forall>i < length h. i \<noteq> p \<longrightarrow> h' ! i = h ! i) \<and>
         validate_and_clean_data (h ! p) = Inr (h' ! q)"
proof -
  let ?h2 = "(h[p := fill_numeric (h ! p)])[p := clip_financial (fill_numeric (h ! p))]"
  have h2p: "?h2 ! p = clip_financial (fill_numeric (h ! p))" using p by simp
  from ret p obtain d where d: "add_calculated_roas (clip_financial (fill_numeric (h ! p))) = Inr d"
    and run: "foldl outlier_step (?h2[p := d], p) outlier_columns = (h', q)"
    by (auto simp: validate_and_clean_data_st_def Let_def split: sum.splits prod.splits)
  have "p < length (?h2[p := d])" using p by simp
  from foldl_outlier_step [OF this, of outlier_columns] run
  have old: "\<forall>i < length (?h2[p := d]). h' ! i = (?h2[p := d]) ! i"
    and res: "h' ! q = foldl remove_outliers_col ((?h2[p := d]) ! p) outlier_columns"
    by auto
  from old p have at_p: "h' ! p = d" by simp
  have others: "\<forall>i < length h. i \<noteq> p \<longrightarrow> h' ! i = h ! i"
    using old by simp
  from res p have "h' ! q = remove_outliers d" by (simp add: remove_outliers_def)
  with d have val: "validate_and_clean_data (h ! p) = Inr (h' ! q)"
    by (simp add: validate_and_clean_data_def ebind_def)
  from add_calculated_roas_Inr [OF d]
  have "length (rows d) = length (rows (h ! p))" by simp
  with d at_p others val show ?thesis by simp
qed

theorem clean_writes_into_callers_table_witness:
  "\<exists>h' q. validate_and_clean_data_st [two_days] 0 = (h', Inr q) \<and>
     add_calculated_roas (clip_financial (fill_numeric two_days)) = Inr (h' ! 0) \<and>
     length (rows (h' ! 0)) = 2 \<and>
     validate_and_clean_data two_days = Inr (h' ! q)"
proof -
  have "has_col two_days ''spend''" "has_col two_days ''attributed_revenue''"
    by (simp_all add: has_col_def two_days_def)
  then have "has_col (clip_financial (fill_numeric two_days)) ''spend''"
    "has_col (clip_financial (fill_numeric two_days)) ''attributed_revenue''"
    by (simp_all add: has_col_def)
  then obtain d where d: "add_calculated_roas (clip_financial (fill_numeric two_days)) = Inr d"
    using add_calculated_roas_returns by blast
  obtain h' q where f: "foldl outlier_step ([d], 0) outlier_columns = (h', q)"
    by (cases "foldl outlier_step ([d], 0) outlier_columns") blast
  with d have run: "validate_and_clean_data_st [two_days] 0 = (h', Inr q)"
    by (simp add: validate_and_clean_data_st_def Let_def)
  have p: "0 < length [two_days]" by simp
  from clean_writes_into_callers_table [OF p run] run show ?thesis
    by (auto simp: two_days_def)
qed

lemma callers_table_after_clean:
  assumes d: "add_calculated_roas (clip_financial (fill_numeric df)) = Inr d"
  shows "fst (validate_and_clean_data_st [df] 0) ! 0 = d"
proof -
  obtain hf q where f: "foldl outlier_step ([d], 0) outlier_columns = (hf, q)"
    and old: "\<forall>i < length [d]. hf ! i = [d] ! i"
    using foldl_outlier_step [of 0 "[d]" outlier_columns] by auto
  from d f have "fst (validate_and_clean_data_st [df] 0) = hf"
    by (simp add: validate_and_clean_data_st_def Let_def)
  with old show ?thesis by simp
qed

text \<open>
  The caller's table after the call is not the table before it: the missing attributed
  revenue of the second day is 0, its negative total revenue is 0, and there is a fifth
  column.
\<close>

theorem clean_leaves_input_counterexample:
  "columns (fst (validate_and_clean_data_st [two_days] 0) ! 0)
     = [''spend'', ''attributed_revenue'', ''total_revenue'', ''orders'',
        ''calculated_marketing_roas''] \<and>
   vals ''attributed_revenue'' (rows (fst (validate_and_clean_data_st [two_days] 0) ! 0))
     = [Fin 250, Fin 0] \<and>
   vals ''total_revenue'' (rows (fst (validate_and_clean_data_st [two_days] 0) ! 0))
     = [Fin 500, Fin 0] \<and>
   columns two_days = [''spend'', ''attributed_revenue'', ''total_revenue'', ''orders''] \<and>
   vals ''attributed_revenue'' (rows two_days) = [Fin 250, NaN] \<and>
   vals ''total_revenue'' (rows two_days) = [Fin 500, Fin (- 20)]"
proof -
  have hc: "has_col two_days ''spend''" "has_col two_days ''attributed_revenue''"
    "has_col two_days ''total_revenue''" "\<not> has_col two_days ''calculated_marketing_roas''"
    by (simp_all add: has_col_def two_days_def)
  then have "has_col (clip_financial (fill_numeric two_days)) ''spend''"
    "has_col (clip_financial (fill_numeric two_days)) ''attributed_revenue''"
    by (simp_all add: has_col_def)
  then obtain d where d: "add_calculated_roas (clip_financial (fill_numeric two_days)) = Inr d"
    using add_calculated_roas_returns by blast
  have at0: "fst (validate_and_clean_data_st [two_days] 0) ! 0 = d"
    by (rule callers_table_after_clean [OF d])
  have cols0: "columns two_days = [''spend'', ''attributed_revenue'', ''total_revenue'', ''orders'']"
    by (simp add: two_days_def)
  have a0: "vals ''attributed_revenue'' (rows two_days) = [Fin 250, NaN]"
    and t0: "vals ''total_revenue'' (rows two_days) = [Fin 500, Fin (- 20)]"
    by (simp_all add: two_days_def vals_def mk_row_def)
  have in_fin: "''attributed_revenue'' \<in> set financial_columns"
    "''total_revenue'' \<in> set financial_columns"
    by (simp_all add: financial_columns_def)
  have hcf: "has_col (fill_numeric two_days) ''attributed_revenue''"
    "has_col (fill_numeric two_days) ''total_revenue''"
    using hc by (simp_all add: has_col_def)
  from hc(4) have "columns d = columns two_days @ [''calculated_marketing_roas'']"
    using columns_add_calculated_roas [OF d] by (simp add: has_col_def)
  then have c1: "columns d = [''spend'', ''attributed_revenue'', ''total_revenue'', ''orders'',
        ''calculated_marketing_roas'']" by (simp add: cols0)
  have a1: "vals ''attributed_revenue'' (rows d) = [Fin 250, Fin 0]"
    using vals_add_calculated_roas [OF d, of "''attributed_revenue''"] in_fin hcf hc
    by (simp add: clip_financial_def vals_foldl_clip vals_fill a0 fillna0_def isnan_def
        clip_lower0_def)
  have t1: "vals ''total_revenue'' (rows d) = [Fin 500, Fin 0]"
    using vals_add_calculated_roas [OF d, of "''total_revenue''"] in_fin hcf hc
    by (simp add: clip_financial_def vals_foldl_clip vals_fill t0 fillna0_def isnan_def
        clip_lower0_def)
  from at0 c1 a1 t1 cols0 a0 t0 show ?thesis by simp
qed

section \<open>Strings and the column finder\<close>

lemma title_platforms:
  "title ''facebook'' = ''Facebook''" "title ''google'' = ''Google''" "title ''tiktok'' = ''Tiktok''"
  by (simp_all add: title_def is_upper_def is_lower_def upper_char_def lower_char_def)

lemma finder_campaign:
  "smart_column_finder campaign_days =
     [''total_revenue'' \<mapsto> ''total revenue'',
      ''facebook_attributed_revenue'' \<mapsto> ''facebook_attributed revenue'',
      ''facebook_spend'' \<mapsto> ''facebook_spend'',
      ''google_attributed_revenue'' \<mapsto> ''google_attributed revenue'',
      ''google_spend'' \<mapsto> ''google_spend'',
      ''tiktok_attributed_revenue'' \<mapsto> ''tiktok_attributed revenue'',
      ''tiktok_spend'' \<mapsto> ''tiktok_spend'']"
  by (simp add: smart_column_finder_def campaign_days_def Let_def map_first_def
      is_total_revenue_col_def platforms_def finder_platform_step_def is_platform_col_def
      lower_def lower_char_def is_upper_def)

lemma lower_char_code: "is_upper c \<Longrightarrow> (of_char (lower_char c) :: nat) = of_char c + 32"
  by (cases c) (auto simp: lower_char_def is_upper_def of_bool_def split: if_splits)

lemma upper_char_code: "is_lower c \<Longrightarrow> (of_char (upper_char c) :: nat) + 32 = of_char c"
  by (cases c) (auto simp: upper_char_def is_lower_def of_bool_def split: if_splits)

section \<open>Rounding to binary64: error bounds\<close>

lemma pow2_pos [simp]: "0 < pow2 k"
  by (simp add: pow2_def)

lemma pow2_add: "pow2 (a + b) = pow2 a * pow2 b"
  by (simp add: pow2_def powr_add)

lemma pow2_0 [simp]: "pow2 0 = 1"
  by (simp add: pow2_def)

lemma pow2_mono: "a \<le> b \<Longrightarrow> pow2 a \<le> pow2 b"
  by (simp add: pow2_def)

lemma pow2_strict_mono: "a < b \<Longrightarrow> pow2 a < pow2 b"
  by (simp add: pow2_def)

lemma pow2_minus: "pow2 (- k) = 1 / pow2 k"
  by (simp add: pow2_def powr_minus_divide)

lemma pow2_nat: "pow2 (int n) = 2 ^ n"
  by (simp add: pow2_def powr_realpow)

lemma pow2_numeral [simp]: "pow2 (numeral n) = 2 ^ numeral n"
  using pow2_nat [of "numeral n"] by simp

lemma pow2_neg_numeral [simp]: "pow2 (- numeral n) = 1 / 2 ^ numeral n"
  by (simp add: pow2_minus)

lemma pow2_1 [simp]: "pow2 1 = 2"
  by (simp add: pow2_def)

lemma pow2_diff: "pow2 (a - b) = pow2 a / pow2 b"
  using pow2_add [of a "- b"] by (simp add: pow2_minus)

lemma rhe_err: "\<bar>of_int (round_half_even x) - x\<bar> \<le> 1 / 2"
proof -
  have "of_int \<lfloor>x\<rfloor> \<le> x" "x < of_int \<lfloor>x\<rfloor> + 1" by linarith+
  then show ?thesis
    by (auto simp: round_half_even_def Let_def)
qed

lemma rhe_int [simp]: "round_half_even (of_int n) = n"
  by (simp add: round_half_even_def)

lemma exponent_bracket:
  assumes "x \<noteq> 0"
  shows "pow2 \<lfloor>log 2 \<bar>x\<bar>\<rfloor> \<le> \<bar>x\<bar>" and "\<bar>x\<bar> < pow2 (\<lfloor>log 2 \<bar>x\<bar>\<rfloor> + 1)"
proof -
  from assms have pos: "0 < \<bar>x\<bar>" by simp
  have "of_int \<lfloor>log 2 \<bar>x\<bar>\<rfloor> \<le> log 2 \<bar>x\<bar>" by simp
  then have "2 powr of_int \<lfloor>log 2 \<bar>x\<bar>\<rfloor> \<le> 2 powr log 2 \<bar>x\<bar>" by simp
  with pos show "pow2 \<lfloor>log 2 \<bar>x\<bar>\<rfloor> \<le> \<bar>x\<bar>" by (simp add: pow2_def)
  have "log 2 \<bar>x\<bar> < of_int (\<lfloor>log 2 \<bar>x\<bar>\<rfloor> + 1)" by linarith
  then have "2 powr log 2 \<bar>x\<bar> < 2 powr of_int (\<lfloor>log 2 \<bar>x\<bar>\<rfloor> + 1)" by simp
  with pos show "\<bar>x\<bar> < pow2 (\<lfloor>log 2 \<bar>x\<bar>\<rfloor> + 1)" by (simp add: pow2_def)
qed

lemma floor_log_eq:
  assumes lo: "pow2 e \<le> \<bar>x\<bar>" and hi: "\<bar>x\<bar> < pow2 (e + 1)"
  shows "\<lfloor>log 2 \<bar>x\<bar>\<rfloor> = e"
proof -
  from lo have pos: "0 < \<bar>x\<bar>" using pow2_pos [of e] by linarith
  have "of_int e \<le> log 2 \<bar>x\<bar>"
    using lo pos by (simp add: pow2_def le_log_iff)
  moreover have "log 2 \<bar>x\<bar> < of_int e + 1"
    using hi pos by (simp add: pow2_def log_less_iff)
  ultimately show ?thesis by linarith
qed

lemma exponent64_eval:
  assumes "pow2 e \<le> \<bar>x\<bar>" "\<bar>x\<bar> < pow2 (e + 1)" "- 1022 \<le> e"
  shows "exponent64 x = e"
  using floor_log_eq [OF assms(1,2)] assms(3) by (simp add: exponent64_def)

lemma exponent64_subnormal:
  assumes "x \<noteq> 0" "\<bar>x\<bar> < pow2 (- 1022)"
  shows "exponent64 x = - 1022"
proof -
  have "\<lfloor>log 2 \<bar>x\<bar>\<rfloor> < - 1022"
  proof (rule ccontr)
    assume "\<not> \<lfloor>log 2 \<bar>x\<bar>\<rfloor> < - 1022"
    then have "pow2 (- 1022) \<le> pow2 \<lfloor>log 2 \<bar>x\<bar>\<rfloor>" by (intro pow2_mono) simp
    with exponent_bracket(1) [OF assms(1)] assms(2) show False by linarith
  qed
  then show ?thesis by (simp add: exponent64_def)
qed

lemma round64_rel:
  assumes lo: "pow2 (- 1022) \<le> \<bar>x\<bar>" and hi: "\<bar>x\<bar> \<le> pow2 1023"
  shows "\<exists>y. round64 x = Fin y \<and> \<bar>y - x\<bar> \<le> \<bar>x\<bar> / 2 ^ 53"
proof -
  from lo have nz: "x \<noteq> 0" using pow2_pos [of "- 1022"] by auto
  define e where "e = \<lfloor>log 2 \<bar>x\<bar>\<rfloor>"
  note br = exponent_bracket [OF nz, folded e_def]
  have e_lo: "- 1022 \<le> e"
  proof (rule ccontr)
    assume "\<not> - 1022 \<le> e"
    then have "e + 1 \<le> - 1022" by simp
    then have "pow2 (e + 1) \<le> pow2 (- 1022)" by (rule pow2_mono)
    with br(2) lo show False by linarith
  qed
  then have ex: "exponent64 x = e" by (simp add: exponent64_def e_def)
  define q where "q = pow2 (e - 52)"
  define y where "y = of_int (round_half_even (x / q)) * q"
  have qpos: "0 < q" by (simp add: q_def)
  have "\<bar>y - x\<bar> = q * \<bar>of_int (round_half_even (x / q)) - x / q\<bar>"
  proof -
    have "y - x = q * (of_int (round_half_even (x / q)) - x / q)"
      using qpos by (simp add: y_def field_simps)
    then show ?thesis using qpos by (simp add: abs_mult)
  qed
  also have "\<dots> \<le> q * (1 / 2)"
    using qpos rhe_err [of "x / q"] by (intro mult_left_mono) simp_all
  also have "\<dots> = pow2 e / 2 ^ 53"
  proof -
    have "q = pow2 e / pow2 52" by (simp add: q_def pow2_diff)
    then show ?thesis by simp
  qed
  also have "\<dots> \<le> \<bar>x\<bar> / 2 ^ 53"
    using br(1) by (simp add: divide_right_mono)
  finally have err: "\<bar>y - x\<bar> \<le> \<bar>x\<bar> / 2 ^ 53" .
  have "\<bar>y\<bar> \<le> \<bar>x\<bar> + \<bar>y - x\<bar>" by linarith
  also have "\<dots> \<le> \<bar>x\<bar> + \<bar>x\<bar> / 2 ^ 53" using err by simp
  also have "\<dots> \<le> pow2 1023 + pow2 1023 / 2 ^ 53"
    using hi by (intro add_mono divide_right_mono) simp_all
  also have "\<dots> < pow2 1024"
  proof -
    have "pow2 1024 = pow2 1023 * 2" using pow2_add [of 1023 1] by simp
    moreover have "pow2 1023 / 2 ^ 53 < pow2 1023"
      using pow2_pos [of 1023] by (simp add: field_simps del: pow2_numeral)
    ultimately show ?thesis by (simp del: pow2_numeral)
  qed
  finally have "\<not> pow2 1024 \<le> \<bar>y\<bar>" by simp
  then have "round64 x = Fin y"
    using nz by (simp add: round64_def ex q_def [symmetric] y_def [symmetric] Let_def
        del: pow2_numeral)
  with err show ?thesis by blast
qed



lemma near_exact: "near 0 E E"
  by (simp add: near_def)

lemma near_mono:
  assumes "0 \<le> E" "near k E v" "k \<le> k'"
  shows "near k' E v"
proof -
  from assms(3) have kk: "real k / 2 ^ 50 \<le> real k' / 2 ^ 50" by (simp add: divide_right_mono)
  have "(1 - real k' / 2 ^ 50) * E \<le> (1 - real k / 2 ^ 50) * E"
    using kk assms(1) by (intro mult_right_mono) simp_all
  moreover have "(1 + real k / 2 ^ 50) * E \<le> (1 + real k' / 2 ^ 50) * E"
    using kk assms(1) by (intro mult_right_mono) simp_all
  ultimately show ?thesis using assms(2) by (simp add: near_def)
qed

lemma near_add:
  assumes "near k E1 v1" "near k E2 v2"
  shows "near k (E1 + E2) (v1 + v2)"
  using assms by (simp add: near_def distrib_left)

lemma near_mul:
  assumes "near k E v" "0 \<le> R"
  shows "near k (E * R) (v * R)"
proof -
  from assms have "(1 - real k / 2 ^ 50) * E * R \<le> v * R" "v * R \<le> (1 + real k / 2 ^ 50) * E * R"
    by (simp_all add: near_def mult_right_mono)
  then show ?thesis by (simp add: near_def mult.assoc)
qed

lemma small_k:
  assumes "k \<le> 1000"
  shows "0 \<le> real k / 2 ^ 50" "real k / 2 ^ 50 \<le> 1 / 2 ^ 40"
proof -
  show "0 \<le> real k / 2 ^ 50" by simp
  have "real k \<le> 1024" using assms by simp
  then have "real k / 2 ^ 50 \<le> 1024 / 2 ^ 50" by (simp add: divide_right_mono)
  then show "real k / 2 ^ 50 \<le> 1 / 2 ^ 40" by simp
qed

lemma near_pos:
  assumes "near k E v" "k \<le> 1000" "0 \<le> E"
  shows "0 \<le> v" and "E / 2 \<le> v" and "v \<le> 2 * E"
proof -
  note a = small_k [OF assms(2)]
  have lo: "1 / 2 \<le> 1 - real k / 2 ^ 50" using a by simp
  have hi: "1 + real k / 2 ^ 50 \<le> 2" using a by simp
  have "E / 2 = (1 / 2) * E" by simp
  also have "\<dots> \<le> (1 - real k / 2 ^ 50) * E" using lo assms(3) by (intro mult_right_mono) simp_all
  also have "\<dots> \<le> v" using assms(1) by (simp add: near_def)
  finally show "E / 2 \<le> v" .
  then show "0 \<le> v" using assms(3) by simp
  have "v \<le> (1 + real k / 2 ^ 50) * E" using assms(1) by (simp add: near_def)
  also have "\<dots> \<le> 2 * E" using hi assms(3) by (intro mult_right_mono) simp_all
  finally show "v \<le> 2 * E" .
qed

lemma near_zero: "near k 0 v \<Longrightarrow> v = 0"
  by (simp add: near_def)

lemma near_round:
  assumes E: "rng lo hi E" and lo: "- 1000 \<le> lo" and hi: "hi \<le> 1000"
    and n: "near k E x" and k: "k \<le> 1000"
  shows "\<exists>v. round64 x = Fin v \<and> near (Suc k) E v"
proof (cases "E = 0")
  case True
  with n have "x = 0" by (simp add: near_zero)
  with True show ?thesis by (simp add: round64_def near_def)
next
  case False
  with E have Epos: "0 \<le> E" and Elo: "pow2 lo \<le> E" and Ehi: "E \<le> pow2 hi"
    by (simp_all add: rng_def)
  note np = near_pos [OF n k Epos]
  have "pow2 (- 1022) \<le> pow2 (lo - 1)" using lo by (intro pow2_mono) simp
  also have "\<dots> = pow2 lo / 2" by (simp add: pow2_diff)
  also have "\<dots> \<le> E / 2" using Elo by simp
  also have "\<dots> \<le> x" by (rule np(2))
  finally have xlo: "pow2 (- 1022) \<le> \<bar>x\<bar>" using np(1) by simp
  have "x \<le> 2 * E" by (rule np(3))
  also have "\<dots> \<le> 2 * pow2 hi" using Ehi by simp
  also have "\<dots> = pow2 (hi + 1)" by (simp add: pow2_add)
  also have "\<dots> \<le> pow2 1023" using hi by (intro pow2_mono) simp
  finally have xhi: "\<bar>x\<bar> \<le> pow2 1023" using np(1) by simp
  from round64_rel [OF xlo xhi] obtain v where v: "round64 x = Fin v"
    and err: "\<bar>v - x\<bar> \<le> \<bar>x\<bar> / 2 ^ 53" by blast
  define a where "a = real k / 2 ^ 50"
  define u where "u = (1::real) / 2 ^ 53"
  have a: "0 \<le> a" "a \<le> 1 / 2 ^ 40" unfolding a_def by (rule small_k [OF k])+
  have u: "0 < u" "8 * u = 1 / 2 ^ 50" by (simp_all add: u_def)
  have xpos: "0 \<le> x" by (rule np(1))
  from err xpos have "\<bar>v - x\<bar> \<le> u * x" by (simp add: u_def)
  then have vlo: "x - u * x \<le> v" and vhi: "v \<le> x + u * x"
    by (simp_all only: abs_le_iff) linarith+
  from n have xl: "(1 - a) * E \<le> x" and xh: "x \<le> (1 + a) * E" by (simp_all add: near_def a_def)
  have "(1 - (a + 1 / 2 ^ 50)) * E \<le> (1 - u) * ((1 - a) * E)"
  proof -
    have "(1 - u) * (1 - a) = 1 - a - u + u * a" by (simp add: algebra_simps)
    moreover have "u \<le> 1 / 2 ^ 50" using u by simp
    moreover have "0 \<le> u * a" using u a by simp
    ultimately have "1 - (a + 1 / 2 ^ 50) \<le> (1 - u) * (1 - a)" by simp
    then have "(1 - (a + 1 / 2 ^ 50)) * E \<le> ((1 - u) * (1 - a)) * E"
      using Epos by (rule mult_right_mono)
    then show ?thesis by (simp add: mult.assoc)
  qed
  also have "\<dots> \<le> (1 - u) * x"
    using xl u by (intro mult_left_mono) (simp_all add: u_def)
  also have "\<dots> \<le> v" using vlo by (simp add: algebra_simps)
  finally have L: "(1 - (a + 1 / 2 ^ 50)) * E \<le> v" .
  have "v \<le> (1 + u) * x" using vhi by (simp add: algebra_simps)
  also have "\<dots> \<le> (1 + u) * ((1 + a) * E)"
    using xh u by (intro mult_left_mono) simp_all
  also have "\<dots> \<le> (1 + (a + 1 / 2 ^ 50)) * E"
  proof -
    have "(1 + u) * (1 + a) = 1 + a + u * (1 + a)" by (simp add: algebra_simps)
    moreover have "u * (1 + a) \<le> u * 2" using u a by (intro mult_left_mono) simp_all
    moreover have "u * 2 \<le> 1 / 2 ^ 50" using u by simp
    ultimately have "(1 + u) * (1 + a) \<le> 1 + (a + 1 / 2 ^ 50)" by simp
    then have "((1 + u) * (1 + a)) * E \<le> (1 + (a + 1 / 2 ^ 50)) * E"
      using Epos by (rule mult_right_mono)
    then show ?thesis by (simp add: mult.assoc)
  qed
  finally have H: "v \<le> (1 + (a + 1 / 2 ^ 50)) * E" .
  have s: "real (Suc k) / 2 ^ 50 = a + 1 / 2 ^ 50" by (simp add: a_def add_divide_distrib)
  from L H have "near (Suc k) E v" unfolding near_def s by simp
  with v show ?thesis by blast
qed

lemma near_div:
  assumes p: "0 \<le> p" and T: "0 < T" and t: "0 < t" and n: "near k T t" and k: "k \<le> 1000"
  shows "near (2 * k) (p / T) (p / t)"
proof -
  define a where "a = real k / 2 ^ 50"
  have a: "0 \<le> a" "a \<le> 1 / 2 ^ 40" unfolding a_def by (rule small_k [OF k])+
  then have a2: "a \<le> 1 / 2" by (simp add: order_trans [OF a(2)])
  from n have tl: "(1 - a) * T \<le> t" and th: "t \<le> (1 + a) * T" by (simp_all add: near_def a_def)
  have s: "real (2 * k) / 2 ^ 50 = 2 * a" by (simp add: a_def)
  have pT: "0 \<le> p / T" using p T by simp
  have "(1 - 2 * a) * (p / T) \<le> p / ((1 + a) * T)"
  proof -
    have "(1 - 2 * a) * (1 + a) \<le> 1"
    proof -
      have "(1 - 2 * a) * (1 + a) = 1 - a - 2 * a * a" by (simp add: algebra_simps)
      moreover have "0 \<le> 2 * a * a" using a by simp
      ultimately show ?thesis using a(1) by linarith
    qed
    then have "(1 - 2 * a) \<le> 1 / (1 + a)" using a by (simp add: pos_le_divide_eq)
    then have "(1 - 2 * a) * (p / T) \<le> (1 / (1 + a)) * (p / T)"
      using pT by (rule mult_right_mono)
    then show ?thesis by simp
  qed
  also have "\<dots> \<le> p / t"
    using th t p by (intro divide_left_mono) (simp_all add: T a)
  finally have L: "(1 - 2 * a) * (p / T) \<le> p / t" .
  have pos: "0 < (1 - a) * T" using a2 T by simp
  have "p / t \<le> p / ((1 - a) * T)"
    using tl pos p t by (intro divide_left_mono) simp_all
  also have "\<dots> \<le> (1 + 2 * a) * (p / T)"
  proof -
    have "1 \<le> (1 + 2 * a) * (1 - a)"
    proof -
      have "(1 + 2 * a) * (1 - a) = 1 + a * (1 - 2 * a)" by (simp add: algebra_simps)
      moreover have "0 \<le> a * (1 - 2 * a)" using a a2 by simp
      ultimately show ?thesis by simp
    qed
    then have "1 / (1 - a) \<le> 1 + 2 * a" using a2 by (simp add: pos_divide_le_eq)
    then have "(1 / (1 - a)) * (p / T) \<le> (1 + 2 * a) * (p / T)"
      using pT by (rule mult_right_mono)
    then show ?thesis by simp
  qed
  finally have H: "p / t \<le> (1 + 2 * a) * (p / T)" .
  from L H show ?thesis unfolding near_def s by simp
qed

lemma near_final:
  assumes n: "near k R S" and k: "k \<le> 1000" and R: "0 \<le> R"
  shows "\<bar>S - R\<bar> \<le> (1 / 1000000) * \<bar>R\<bar>"
proof -
  define a where "a = real k / 2 ^ 50"
  have a: "0 \<le> a" "a \<le> 1 / 2 ^ 40" unfolding a_def by (rule small_k [OF k])+
  have a6: "a \<le> 1 / 1000000" using a(2) by simp
  from n have "(1 - a) * R \<le> S" "S \<le> (1 + a) * R" by (simp_all add: near_def a_def)
  then have "\<bar>S - R\<bar> \<le> a * R" by (simp add: abs_le_iff algebra_simps)
  also have "\<dots> \<le> (1 / 1000000) * R" using a6 R by (rule mult_right_mono)
  finally show ?thesis using R by simp
qed



lemma pow2_nonneg [simp]: "0 \<le> pow2 k"
  using pow2_pos [of k] by linarith

lemma round64_q:
  assumes nz: "x \<noteq> 0" and ex: "exponent64 x = e" and e: "e \<le> 1022"
    and hi: "\<bar>x\<bar> < pow2 (e + 1)"
  shows "round64 x = Fin (of_int (round_half_even (x / pow2 (e - 52))) * pow2 (e - 52))"
proof -
  define q where "q = pow2 (e - 52)"
  define y where "y = of_int (round_half_even (x / q)) * q"
  have qpos: "0 < q" by (simp add: q_def)
  have "\<bar>y - x\<bar> = q * \<bar>of_int (round_half_even (x / q)) - x / q\<bar>"
  proof -
    have "y - x = q * (of_int (round_half_even (x / q)) - x / q)"
      using qpos by (simp add: y_def field_simps)
    then show ?thesis using qpos by (simp add: abs_mult)
  qed
  also have "\<dots> \<le> q * (1 / 2)"
    using qpos rhe_err [of "x / q"] by (intro mult_left_mono) simp_all
  also have "\<dots> \<le> q" using qpos by simp
  also have "\<dots> \<le> pow2 (e + 1)" unfolding q_def by (intro pow2_mono) simp
  finally have err: "\<bar>y - x\<bar> \<le> pow2 (e + 1)" .
  have "\<bar>y\<bar> \<le> \<bar>x\<bar> + \<bar>y - x\<bar>" by linarith
  also have "\<dots> < pow2 (e + 1) + pow2 (e + 1)" using err hi by linarith
  also have "\<dots> = pow2 (e + 2)" using pow2_add [of "e + 1" 1] by (simp add: add.commute)
  also have "\<dots> \<le> pow2 1024" using e by (intro pow2_mono) simp
  finally have "\<not> pow2 1024 \<le> \<bar>y\<bar>" by simp
  then have "round64 x = Fin y"
    using nz by (simp add: round64_def ex q_def [symmetric] y_def [symmetric] Let_def
        del: pow2_numeral)
  then show ?thesis by (simp add: y_def q_def)
qed

lemma round64_at:
  assumes "pow2 e \<le> \<bar>x\<bar>" "\<bar>x\<bar> < pow2 (e + 1)" "- 1022 \<le> e" "e \<le> 1022"
  shows "round64 x = Fin (of_int (round_half_even (x / pow2 (e - 52))) * pow2 (e - 52))"
proof -
  have nz: "x \<noteq> 0"
  proof
    assume "x = 0"
    with assms(1) have "pow2 e \<le> 0" by simp
    with pow2_pos [of e] show False by linarith
  qed
  show ?thesis
    by (rule round64_q [OF nz exponent64_eval [OF assms(1,2,3)] assms(4) assms(2)])
qed

lemma round64_subnormal:
  assumes "x \<noteq> 0" "\<bar>x\<bar> < pow2 (- 1022)"
  shows "round64 x = Fin (of_int (round_half_even (x / pow2 (- 1074))) * pow2 (- 1074))"
proof -
  have "\<bar>x\<bar> < pow2 (- 1022 + 1)"
    using assms(2) pow2_strict_mono [of "- 1022" "- 1022 + 1"] by linarith
  from round64_q [OF assms(1) exponent64_subnormal [OF assms] _ this] show ?thesis by simp
qed

lemma round64_0 [simp]: "round64 0 = Fin 0"
  by (simp add: round64_def)

lemma rng_add:
  assumes "rng lo hi x" "rng lo hi y"
  shows "rng lo (hi + 1) (x + y)"
proof -
  have "pow2 (hi + 1) = 2 * pow2 hi" using pow2_add [of hi 1] by simp
  then show ?thesis using assms by (auto simp: rng_def)
qed

lemma rng_weaken:
  assumes "rng lo hi x" "lo' \<le> lo" "hi \<le> hi'"
  shows "rng lo' hi' x"
  using assms pow2_mono [of lo' lo] pow2_mono [of hi hi'] by (auto simp: rng_def)

lemma rng_nonneg: "rng lo hi x \<Longrightarrow> 0 \<le> x"
  by (simp add: rng_def)

lemma rng_div:
  assumes p: "rng lo hi p" and T: "pow2 lo' \<le> T" "T \<le> pow2 hi'"
  shows "rng (lo - hi') (hi - lo') (p / T)"
proof -
  have Tpos: "0 < T" using T(1) pow2_pos [of lo'] by linarith
  from p have p0: "0 \<le> p" and phi: "p \<le> pow2 hi" by (simp_all add: rng_def)
  have "p / T \<le> pow2 hi / pow2 lo'"
    by (rule frac_le [OF pow2_nonneg phi pow2_pos T(1)])
  then have hi: "p / T \<le> pow2 (hi - lo')" by (simp add: pow2_diff)
  have lo: "p / T = 0 \<or> pow2 (lo - hi') \<le> p / T"
  proof (cases "p = 0")
    case True then show ?thesis by simp
  next
    case False
    with p have "pow2 lo \<le> p" by (simp add: rng_def)
    then have "pow2 lo / pow2 hi' \<le> p / T"
        by (rule frac_le [OF p0 _ Tpos T(2)])
    then show ?thesis by (simp add: pow2_diff)
  qed
  from hi lo p0 Tpos show ?thesis by (simp add: rng_def)
qed

lemma rng_mul:
  assumes x: "rng lo hi x" and R: "pow2 lo' \<le> R" "R \<le> pow2 hi'"
  shows "rng (lo + lo') (hi + hi') (x * R)"
proof -
  have Rpos: "0 < R" using R(1) pow2_pos [of lo'] by linarith
  from x have x0: "0 \<le> x" and xhi: "x \<le> pow2 hi" by (simp_all add: rng_def)
  have hi: "x * R \<le> pow2 (hi + hi')"
    unfolding pow2_add using mult_mono [of x "pow2 hi" R "pow2 hi'"] xhi R(2) x0 Rpos by simp
  have lo: "x * R = 0 \<or> pow2 (lo + lo') \<le> x * R"
  proof (cases "x = 0")
    case True then show ?thesis by simp
  next
    case False
    with x have "pow2 lo \<le> x" by (simp add: rng_def)
    then have "pow2 lo * pow2 lo' \<le> x * R"
      using mult_mono [of "pow2 lo" x "pow2 lo'" R] R(1) x0 by simp
    then show ?thesis by (simp add: pow2_add)
  qed
  from hi lo x0 Rpos show ?thesis by (simp add: rng_def)
qed

lemma fl_add_Fin: "fl_add (Fin x) (Fin y) = round64 (x + y)"
  by (simp add: fl_add_def)

lemma fl_mul_Fin: "fl_mul (Fin x) (Fin y) = round64 (x * y)"
  by (simp add: fl_mul_def)

lemma fl_div_Fin: "y \<noteq> 0 \<Longrightarrow> fl_div (Fin x) (Fin y) = round64 (x / y)"
  by (simp add: fl_div_def)

lemma fl_add_near:
  assumes E1: "rng lo hi E1" and E2: "rng lo hi E2" and lo: "- 1000 \<le> lo" and hi: "hi \<le> 999"
    and n1: "near k E1 v1" and n2: "near k E2 v2" and k: "k \<le> 1000"
  shows "\<exists>v. fl_add (Fin v1) (Fin v2) = Fin v \<and> near (Suc k) (E1 + E2) v"
proof -
  from hi have hi': "hi + 1 \<le> 1000" by simp
  from near_round [OF rng_add [OF E1 E2] lo hi' near_add [OF n1 n2] k]
  show ?thesis by (simp add: fl_add_Fin)
qed

lemma sum3_near:
  assumes E1: "rng lo hi E1" and E2: "rng lo hi E2" and E3: "rng lo hi E3"
    and lo: "- 1000 \<le> lo" and hi: "hi \<le> 998"
    and n1: "near k E1 s1" and n2: "near k E2 s2" and n3: "near k E3 s3" and k: "k \<le> 900"
  shows "\<exists>S. fl_add (fl_add (fl_add (Fin 0) (Fin s1)) (Fin s2)) (Fin s3) = Fin S \<and>
             near (k + 3) (E1 + E2 + E3) S"
proof -
  from hi have hi0: "hi \<le> 1000" and hi1: "hi \<le> 999" and hi2: "hi + 1 \<le> 999" by simp_all
  from k have k0: "k \<le> 1000" and k1: "Suc k \<le> 1000" and k2: "Suc (Suc k) \<le> 1000" by simp_all
  from near_round [OF E1 lo hi0 n1 k0] obtain v1 where
    v1: "fl_add (Fin 0) (Fin s1) = Fin v1" and a1: "near (Suc k) E1 v1"
    by (auto simp: fl_add_Fin)
  have b2: "near (Suc k) E2 s2" by (rule near_mono [OF rng_nonneg [OF E2] n2]) simp
  from fl_add_near [OF E1 E2 lo hi1 a1 b2 k1] obtain v2 where
    v2: "fl_add (Fin v1) (Fin s2) = Fin v2" and a2: "near (Suc (Suc k)) (E1 + E2) v2" by blast
  have b3: "near (Suc (Suc k)) E3 s3" by (rule near_mono [OF rng_nonneg [OF E3] n3]) simp
  have E3': "rng lo (hi + 1) E3" by (rule rng_weaken [OF E3]) simp_all
  from fl_add_near [OF rng_add [OF E1 E2] E3' lo hi2 a2 b3 k2] obtain v3 where
    v3: "fl_add (Fin v2) (Fin s3) = Fin v3" and a3: "near (Suc (Suc (Suc k))) (E1 + E2 + E3) v3"
    by blast
  have "Suc (Suc (Suc k)) = k + 3" by simp
  with v1 v2 v3 a3 show ?thesis by simp
qed

lemma share_near:
  assumes p: "rng (- 300) 300 p" and T: "pow2 (- 300) \<le> T" "T \<le> pow2 302"
    and R: "pow2 (- 300) \<le> R" "R \<le> pow2 300" and t: "near 3 T t" "0 < t"
  shows "\<exists>s. fl_mul (fl_div (Fin p) (Fin t)) (Fin R) = Fin s \<and> near 8 (p / T * R) s"
    and "rng (- 902) 900 (p / T * R)"
proof -
  have Tpos: "0 < T" using T(1) pow2_pos [of "- 300"] by linarith
  have Rpos: "0 < R" using R(1) pow2_pos [of "- 300"] by linarith
  have nd: "near 6 (p / T) (p / t)"
    using near_div [OF rng_nonneg [OF p] Tpos t(2) t(1)] by simp
  have r1: "rng (- 602) 600 (p / T)" using rng_div [OF p T] by simp
  from near_round [OF r1 _ _ nd] obtain d where
    d: "round64 (p / t) = Fin d" and dn: "near 7 (p / T) d" by auto
  have nm: "near 7 (p / T * R) (d * R)" using near_mul [OF dn] Rpos by simp
  show r2: "rng (- 902) 900 (p / T * R)" using rng_mul [OF r1 R] by simp
  from near_round [OF r2 _ _ nm] obtain s where
    s: "round64 (d * R) = Fin s" and sn: "near 8 (p / T * R) s" by auto
  from t(2) have "fl_mul (fl_div (Fin p) (Fin t)) (Fin R) = Fin s"
    by (simp add: fl_div_Fin d fl_mul_Fin s)
  with sn show "\<exists>s. fl_mul (fl_div (Fin p) (Fin t)) (Fin R) = Fin s \<and> near 8 (p / T * R) s"
    by blast
qed

lemma near_within_tolerance:
  assumes "near k R S" "k \<le> 1000" "0 \<le> R"
  shows "within_tolerance (Fin S) (Fin R)"
  using near_final [OF assms] by (auto simp: within_tolerance_def fsub_def)

lemma spend_sum_near:
  assumes a: "rng (- 300) 300 a" and b: "rng (- 300) 300 b" and c: "rng (- 300) 300 c"
    and R: "pow2 (- 300) \<le> R" "R \<le> pow2 300"
    and t: "near 3 (a + b + c) t" "0 < t"
  shows "\<exists>S. fl_add (fl_add (fl_add (Fin 0) (fl_mul (fl_div (Fin a) (Fin t)) (Fin R)))
                  (fl_mul (fl_div (Fin b) (Fin t)) (Fin R)))
            (fl_mul (fl_div (Fin c) (Fin t)) (Fin R)) = Fin S \<and>
          within_tolerance (Fin S) (Fin R)"
proof -
  define T where "T = a + b + c"
  have ab: "rng (- 300) 301 (a + b)" using rng_add [OF a b] by simp
  have c': "rng (- 300) 301 c" by (rule rng_weaken [OF c]) simp_all
  have rT: "rng (- 300) 302 T"
    unfolding T_def using rng_add [OF ab c'] by simp
  have Tnz: "T \<noteq> 0"
  proof
    assume "T = 0"
    with t(1) have "t = 0" by (simp add: T_def [symmetric] near_zero)
    with t(2) show False by simp
  qed
  with rT have T: "pow2 (- 300) \<le> T" "T \<le> pow2 302" by (simp_all add: rng_def)
  note tn = t(1) [folded T_def]
  from share_near [OF a T R tn t(2)] obtain sa where
    sa: "fl_mul (fl_div (Fin a) (Fin t)) (Fin R) = Fin sa" and na: "near 8 (a / T * R) sa"
    and ra: "rng (- 902) 900 (a / T * R)" by blast
  from share_near [OF b T R tn t(2)] obtain sb where
    sb: "fl_mul (fl_div (Fin b) (Fin t)) (Fin R) = Fin sb" and nb: "near 8 (b / T * R) sb"
    and rb: "rng (- 902) 900 (b / T * R)" by blast
  from share_near [OF c T R tn t(2)] obtain sc where
    sc: "fl_mul (fl_div (Fin c) (Fin t)) (Fin R) = Fin sc" and nc: "near 8 (c / T * R) sc"
    and rc: "rng (- 902) 900 (c / T * R)" by blast
  from sum3_near [OF ra rb rc _ _ na nb nc] obtain S where
    S: "fl_add (fl_add (fl_add (Fin 0) (Fin sa)) (Fin sb)) (Fin sc) = Fin S"
    and nS: "near (8 + 3) (a / T * R + b / T * R + c / T * R) S" by auto
  have "a / T * R + b / T * R + c / T * R = (a + b + c) / T * R"
    by (simp add: add_divide_distrib distrib_right)
  also have "\<dots> = R" using Tnz by (simp add: T_def)
  finally have eq: "a / T * R + b / T * R + c / T * R = R" .
  have R0: "0 \<le> R" using R(1) pow2_pos [of "- 300"] by linarith
  from nS have "near 11 R S" unfolding eq by simp
  from near_within_tolerance [OF this _ R0] S show ?thesis by (simp add: sa sb sc)
qed

lemma linear_sum_near:
  assumes R: "pow2 (- 300) \<le> R" "R \<le> pow2 300"
  shows "\<exists>S. fl_add (fl_add (fl_add (Fin 0) (fl_div (Fin R) (Fin 3))) (fl_div (Fin R) (Fin 3)))
            (fl_div (Fin R) (Fin 3)) = Fin S \<and> within_tolerance (Fin S) (Fin R)"
proof -
  have R0: "0 \<le> R" using R(1) pow2_pos [of "- 300"] by linarith
  have rR: "rng (- 300) 300 R" using R R0 by (simp add: rng_def)
  have r3: "rng (- 302) 299 (R / 3)"
    using rng_div [OF rR, of 1 3 2] by simp
  from near_round [OF r3 _ _ near_exact] obtain l where
    l: "round64 (R / 3) = Fin l" and nl: "near 1 (R / 3) l" by auto
  from sum3_near [OF r3 r3 r3 _ _ nl nl nl] obtain S where
    S: "fl_add (fl_add (fl_add (Fin 0) (Fin l)) (Fin l)) (Fin l) = Fin S"
    and nS: "near (1 + 3) (R / 3 + R / 3 + R / 3) S" by auto
  from nS have "near 4 R S" by simp
  from near_within_tolerance [OF this _ R0] S show ?thesis by (simp add: fl_div_Fin l)
qed

lemma model_total_near:
  assumes a: "rng (- 300) 300 a" and b: "rng (- 300) 300 b" and c: "rng (- 300) 300 c"
  shows "\<exists>t. fl_add (fl_add (Fin a) (Fin b)) (Fin c) = Fin t \<and> near 3 (a + b + c) t"
proof -
  from fl_add_near [OF a b _ _ near_exact near_exact] obtain v where
    v: "fl_add (Fin a) (Fin b) = Fin v" and nv: "near 1 (a + b) v" by auto
  have c1: "near 1 c c" by (rule near_mono [OF rng_nonneg [OF c] near_exact]) simp
  have ab: "rng (- 300) 301 (a + b)" using rng_add [OF a b] by simp
  have c': "rng (- 300) 301 c" by (rule rng_weaken [OF c]) simp_all
  from fl_add_near [OF ab c' _ _ nv c1]
  obtain t where t: "fl_add (Fin v) (Fin c) = Fin t" and nt: "near 2 (a + b + c) t"
    by (auto simp: numeral_2_eq_2)
  have "0 \<le> a + b + c" using a b c by (simp add: rng_def)
  from near_mono [OF this nt, of 3] v t show ?thesis by simp
qed

lemma smart_total_near:
  assumes a: "rng (- 300) 300 a" and b: "rng (- 300) 300 b" and c: "rng (- 300) 300 c"
  shows "\<exists>t. fl_add (fl_add (fl_add (Fin 0) (Fin a)) (Fin b)) (Fin c) = Fin t \<and>
             near 3 (a + b + c) t"
  using sum3_near [OF a b c _ _ near_exact near_exact near_exact] by simp

lemma pow2_m1 [simp]: "pow2 (- 1) = 1 / 2"
  using pow2_minus [of 1] by simp

lemma round64_exact:
  assumes "pow2 e \<le> \<bar>x\<bar>" "\<bar>x\<bar> < pow2 (e + 1)" "- 1022 \<le> e" "e \<le> 1022"
    and n: "x / pow2 (e - 52) = of_int n"
  shows "round64 x = Fin x"
proof -
  have q: "pow2 (e - 52) \<noteq> 0" by (simp add: pow2_def)
  have "of_int n * pow2 (e - 52) = x"
    using n [symmetric] q by simp
  with round64_at [OF assms(1-4)] show ?thesis by (simp add: n)
qed

lemma total_positive:
  assumes a: "rng (- 300) 300 a" and b: "rng (- 300) 300 b" and c: "rng (- 300) 300 c"
    and pos: "0 < a + b + c"
  shows "finite_positive (fl_add (fl_add (Fin a) (Fin b)) (Fin c))"
    and "finite_positive (fl_add (fl_add (fl_add (Fin 0) (Fin a)) (Fin b)) (Fin c))"
proof -
  have T0: "0 \<le> a + b + c" using pos by simp
  from model_total_near [OF a b c] obtain t where
    t: "fl_add (fl_add (Fin a) (Fin b)) (Fin c) = Fin t" and nt: "near 3 (a + b + c) t" by blast
  from near_pos(2) [OF nt _ T0] pos have "0 < t" by simp
  with t show "finite_positive (fl_add (fl_add (Fin a) (Fin b)) (Fin c))" by simp
  from smart_total_near [OF a b c] obtain t' where
    t': "fl_add (fl_add (fl_add (Fin 0) (Fin a)) (Fin b)) (Fin c) = Fin t'"
    and nt': "near 3 (a + b + c) t'" by blast
  from near_pos(2) [OF nt' _ T0] pos have "0 < t'" by simp
  with t' show "finite_positive (fl_add (fl_add (fl_add (Fin 0) (Fin a)) (Fin b)) (Fin c))"
    by simp
qed

section \<open>Attribution: the sum law\<close>

lemma finite_positive_iff: "finite_positive x = (\<exists>a. x = Fin a \<and> 0 < a)"
  by (cases x) simp_all

lemma spend_in_range_iff: "spend_in_range x = (\<exists>a. x = Fin a \<and> rng (- 300) 300 a)"
proof (cases x)
  case (Fin a)
  have "0 \<le> pow2 300" "\<And>y. pow2 (- 300) \<le> y \<Longrightarrow> 0 \<le> y"
    using pow2_pos [of "- 300"] by (simp, linarith)
  then show ?thesis using Fin by (auto simp: rng_def simp del: pow2_numeral pow2_neg_numeral)
qed simp_all

lemma revenue_in_range_iff:
  "revenue_in_range x = (\<exists>r. x = Fin r \<and> pow2 (- 300) \<le> r \<and> r \<le> pow2 300)"
  by (cases x) simp_all

lemma alloc_sum3:
  assumes "m k1 = Some v1" "m k2 = Some v2" "m k3 = Some v3"
  shows "alloc_sum m [k1, k2, k3] = Some (fl_add (fl_add (fl_add (Fin 0) v1) v2) v3)"
  using assms by (simp add: alloc_sum_def)

lemma attribution_model_result:
  assumes ret: "calculate_attribution_model df = Inr am"
  shows "spend_based am =
      [''facebook'' \<mapsto> spend_share (series_sum (vals ''facebook_spend'' (rows df)))
                         (platform_spend_total df)
                         (series_sum (vals (revenue_col_of df) (rows df))),
       ''google'' \<mapsto> spend_share (series_sum (vals ''google_spend'' (rows df)))
                       (platform_spend_total df)
                       (series_sum (vals (revenue_col_of df) (rows df))),
       ''tiktok'' \<mapsto> spend_share (series_sum (vals ''tiktok_spend'' (rows df)))
                       (platform_spend_total df)
                       (series_sum (vals (revenue_col_of df) (rows df)))]"
    and "linear am =
      [''facebook'' \<mapsto> fl_div (series_sum (vals (revenue_col_of df) (rows df))) (Fin 3),
       ''google'' \<mapsto> fl_div (series_sum (vals (revenue_col_of df) (rows df))) (Fin 3),
       ''tiktok'' \<mapsto> fl_div (series_sum (vals (revenue_col_of df) (rows df))) (Fin 3)]"
  using ret
  by (auto simp: calculate_attribution_model_def ebind_def getcol_def Let_def vals_def
      platform_spend_total_def split: if_splits)

lemma attribution_model_sums:
  assumes ret: "calculate_attribution_model df = Inr am"
    and a: "series_sum (vals ''facebook_spend'' (rows df)) = Fin a" "rng (- 300) 300 a"
    and b: "series_sum (vals ''google_spend'' (rows df)) = Fin b" "rng (- 300) 300 b"
    and c: "series_sum (vals ''tiktok_spend'' (rows df)) = Fin c" "rng (- 300) 300 c"
    and T: "finite_positive (platform_spend_total df)"
    and R: "series_sum (vals (revenue_col_of df) (rows df)) = Fin r"
      "pow2 (- 300) \<le> r" "r \<le> pow2 300"
  shows "\<exists>s. alloc_sum (spend_based am) platforms = Some s \<and> within_tolerance s (Fin r)"
    and "\<exists>l. alloc_sum (linear am) platforms = Some l \<and> within_tolerance l (Fin r)"
    and "\<forall>p \<in> set platforms. linear am p = Some (fl_div (Fin r) (Fin 3))"
proof -
  from model_total_near [OF a(2) b(2) c(2)] obtain t where
    t: "fl_add (fl_add (Fin a) (Fin b)) (Fin c) = Fin t" and nt: "near 3 (a + b + c) t" by blast
  have pt: "platform_spend_total df = Fin t"
    by (simp add: platform_spend_total_def a(1) b(1) c(1) t)
  with T have tpos: "0 < t" by simp
  have sh: "\<And>p. spend_share (Fin p) (Fin t) (Fin r) = fl_mul (fl_div (Fin p) (Fin t)) (Fin r)"
    using tpos by (simp add: spend_share_def fgt_def)
  note res = attribution_model_result [OF ret]
  from spend_sum_near [OF a(2) b(2) c(2) R(2,3) nt tpos] obtain S where
    S: "fl_add (fl_add (fl_add (Fin 0) (fl_mul (fl_div (Fin a) (Fin t)) (Fin r)))
                  (fl_mul (fl_div (Fin b) (Fin t)) (Fin r)))
            (fl_mul (fl_div (Fin c) (Fin t)) (Fin r)) = Fin S"
    and wS: "within_tolerance (Fin S) (Fin r)" by blast
  have "alloc_sum (spend_based am) platforms = Some (Fin S)"
    unfolding platforms_def res(1) a(1) b(1) c(1) pt R(1) sh
    by (subst alloc_sum3 [where ?v1.0 = "fl_mul (fl_div (Fin a) (Fin t)) (Fin r)"
          and ?v2.0 = "fl_mul (fl_div (Fin b) (Fin t)) (Fin r)"
          and ?v3.0 = "fl_mul (fl_div (Fin c) (Fin t)) (Fin r)"]) (simp_all add: S)
  with wS show "\<exists>s. alloc_sum (spend_based am) platforms = Some s \<and> within_tolerance s (Fin r)"
    by blast
  from linear_sum_near [OF R(2,3)] obtain L where
    L: "fl_add (fl_add (fl_add (Fin 0) (fl_div (Fin r) (Fin 3))) (fl_div (Fin r) (Fin 3)))
            (fl_div (Fin r) (Fin 3)) = Fin L"
    and wL: "within_tolerance (Fin L) (Fin r)" by blast
  have "alloc_sum (linear am) platforms = Some (Fin L)"
    unfolding platforms_def res(2) R(1)
    by (subst alloc_sum3 [where ?v1.0 = "fl_div (Fin r) (Fin 3)"
          and ?v2.0 = "fl_div (Fin r) (Fin 3)" and ?v3.0 = "fl_div (Fin r) (Fin 3)"])
       (simp_all add: L)
  with wL show "\<exists>l. alloc_sum (linear am) platforms = Some l \<and> within_tolerance l (Fin r)"
    by blast
  show "\<forall>p \<in> set platforms. linear am p = Some (fl_div (Fin r) (Fin 3))"
    by (simp add: platforms_def res(2) R(1))
qed

lemma smart_result:
  assumes ret: "calculate_attribution_models_smart df cm = Inr (Some sm)"
    and rc: "cm ''total_revenue'' = Some rc"
  shows "has_col df rc"
    and "last_click sm = fst (smart_first_loop df cm)"
    and "time_decay sm = fst (snd (smart_first_loop df cm))"
    and "spend_based sm =
           foldl (smart_spend_step df cm (smart_total_spend df cm) (series_sum (vals rc (rows df))))
             Map.empty platforms"
    and "linear sm = [''Facebook'' \<mapsto> fl_div (series_sum (vals rc (rows df))) (Fin 3),
                      ''Google'' \<mapsto> fl_div (series_sum (vals rc (rows df))) (Fin 3),
                      ''TikTok'' \<mapsto> fl_div (series_sum (vals rc (rows df))) (Fin 3)]"
  using ret rc
  by (auto simp: calculate_attribution_models_smart_def ebind_def getcol_def Let_def vals_def
      smart_total_spend_def split: if_splits prod.splits)

lemma smart_returns:
  assumes rc: "cm ''total_revenue'' = Some rc" and has: "has_col df rc"
  shows "\<exists>sm. calculate_attribution_models_smart df cm = Inr (Some sm)"
  using rc has
  by (simp add: calculate_attribution_models_smart_def ebind_def getcol_def Let_def
      split: prod.splits)

lemma smart_total_spend_all:
  assumes "mapped_col df cm ''facebook_spend'' = Some cf"
    "mapped_col df cm ''google_spend'' = Some cg"
    "mapped_col df cm ''tiktok_spend'' = Some ct"
  shows "smart_total_spend df cm =
           fl_add (fl_add (fl_add (Fin 0) (series_sum (vals cf (rows df))))
                          (series_sum (vals cg (rows df))))
                  (series_sum (vals ct (rows df)))"
  using assms
  by (simp add: smart_total_spend_def smart_first_loop_def platforms_def
      smart_platform_step_def Let_def)

lemma smart_models_sums:
  assumes ret: "calculate_attribution_models_smart df cm = Inr (Some sm)"
    and rc: "cm ''total_revenue'' = Some rc"
    and cf: "mapped_col df cm ''facebook_spend'' = Some cf"
    and cg: "mapped_col df cm ''google_spend'' = Some cg"
    and ct: "mapped_col df cm ''tiktok_spend'' = Some ct"
    and a: "series_sum (vals cf (rows df)) = Fin a" "rng (- 300) 300 a"
    and b: "series_sum (vals cg (rows df)) = Fin b" "rng (- 300) 300 b"
    and c: "series_sum (vals ct (rows df)) = Fin c" "rng (- 300) 300 c"
    and T: "finite_positive (smart_total_spend df cm)"
    and R: "series_sum (vals rc (rows df)) = Fin r" "pow2 (- 300) \<le> r" "r \<le> pow2 300"
  shows "\<exists>s. alloc_sum (spend_based sm) (map title platforms) = Some s \<and>
             within_tolerance s (Fin r)"
    and "\<exists>l. alloc_sum (linear sm) [''Facebook'', ''Google'', ''TikTok''] = Some l \<and>
             within_tolerance l (Fin r)"
    and "\<forall>k \<in> set [''Facebook'', ''Google'', ''TikTok''].
           linear sm k = Some (fl_div (Fin r) (Fin 3))"
proof -
  from smart_total_near [OF a(2) b(2) c(2)] obtain t where
    t: "fl_add (fl_add (fl_add (Fin 0) (Fin a)) (Fin b)) (Fin c) = Fin t"
    and nt: "near 3 (a + b + c) t" by blast
  have pt: "smart_total_spend df cm = Fin t"
    by (simp add: smart_total_spend_all [OF cf cg ct] a(1) b(1) c(1) t)
  with T have tpos: "0 < t" by simp
  note res = smart_result [OF ret rc]
  have sb: "spend_based sm =
      [''Facebook'' \<mapsto> fl_mul (fl_div (Fin a) (Fin t)) (Fin r),
       ''Google'' \<mapsto> fl_mul (fl_div (Fin b) (Fin t)) (Fin r),
       ''Tiktok'' \<mapsto> fl_mul (fl_div (Fin c) (Fin t)) (Fin r)]"
    using tpos
    by (simp add: res(4) pt R(1) platforms_def smart_spend_step_def cf cg ct a(1) b(1) c(1)
        title_platforms fgt_def)
  from spend_sum_near [OF a(2) b(2) c(2) R(2,3) nt tpos] obtain S where
    S: "fl_add (fl_add (fl_add (Fin 0) (fl_mul (fl_div (Fin a) (Fin t)) (Fin r)))
                  (fl_mul (fl_div (Fin b) (Fin t)) (Fin r)))
            (fl_mul (fl_div (Fin c) (Fin t)) (Fin r)) = Fin S"
    and wS: "within_tolerance (Fin S) (Fin r)" by blast
  have "alloc_sum (spend_based sm) (map title platforms) = Some (Fin S)"
    unfolding sb platforms_def list.map title_platforms
    by (subst alloc_sum3 [where ?v1.0 = "fl_mul (fl_div (Fin a) (Fin t)) (Fin r)"
          and ?v2.0 = "fl_mul (fl_div (Fin b) (Fin t)) (Fin r)"
          and ?v3.0 = "fl_mul (fl_div (Fin c) (Fin t)) (Fin r)"]) (simp_all add: S)
  with wS show "\<exists>s. alloc_sum (spend_based sm) (map title platforms) = Some s \<and>
             within_tolerance s (Fin r)" by blast
  from linear_sum_near [OF R(2,3)] obtain L where
    L: "fl_add (fl_add (fl_add (Fin 0) (fl_div (Fin r) (Fin 3))) (fl_div (Fin r) (Fin 3)))
            (fl_div (Fin r) (Fin 3)) = Fin L"
    and wL: "within_tolerance (Fin L) (Fin r)" by blast
  have "alloc_sum (linear sm) [''Facebook'', ''Google'', ''TikTok''] = Some (Fin L)"
    unfolding res(5) R(1)
    by (subst alloc_sum3 [where ?v1.0 = "fl_div (Fin r) (Fin 3)"
          and ?v2.0 = "fl_div (Fin r) (Fin 3)" and ?v3.0 = "fl_div (Fin r) (Fin 3)"])
       (simp_all add: L)
  with wL show "\<exists>l. alloc_sum (linear sm) [''Facebook'', ''Google'', ''TikTok''] = Some l \<and>
             within_tolerance l (Fin r)" by blast
  show "\<forall>k \<in> set [''Facebook'', ''Google'', ''TikTok''].
           linear sm k = Some (fl_div (Fin r) (Fin 3))"
    by (simp add: res(5) R(1))
qed

text \<open>
  C2 (as amended). Let the three platform spend totals be finite, each 0 or between
  \<open>2 ^ -300\<close> and \<open>2 ^ 300\<close> (so none is negative), let the total platform spend the
  function computes be positive, and let the total revenue lie between \<open>2 ^ -300\<close> and
  \<open>2 ^ 300\<close>. Then, with every operation rounded to binary64, the spend-based
  allocations added up by \<open>sum\<close> are within the relative tolerance \<open>1e-6\<close> of the total
  revenue, and so are the linear allocations, each of which is the float quotient
  \<open>total_revenue / 3\<close>; this holds of \<open>calculate_attribution_model\<close> and of
  \<open>calculate_attribution_models_smart\<close> (when the mapping gives each platform a spend
  column of the table).
\<close>

theorem attribution_sum_law:
  "(\<forall>am. calculate_attribution_model df = Inr am \<and>
         spend_in_range (series_sum (vals ''facebook_spend'' (rows df))) \<and>
         spend_in_range (series_sum (vals ''google_spend'' (rows df))) \<and>
         spend_in_range (series_sum (vals ''tiktok_spend'' (rows df))) \<and>
         finite_positive (platform_spend_total df) \<and>
         revenue_in_range (series_sum (vals (revenue_col_of df) (rows df))) \<longrightarrow>
      (\<exists>s l. alloc_sum (spend_based am) platforms = Some s \<and>
             within_tolerance s (series_sum (vals (revenue_col_of df) (rows df))) \<and>
             alloc_sum (linear am) platforms = Some l \<and>
             within_tolerance l (series_sum (vals (revenue_col_of df) (rows df))) \<and>
             (\<forall>p \<in> set platforms.
                linear am p
                  = Some (fl_div (series_sum (vals (revenue_col_of df) (rows df))) (Fin 3))))) \<and>
   (\<forall>sm rc cf cg ct. calculate_attribution_models_smart df cm = Inr (Some sm) \<and>
         cm ''total_revenue'' = Some rc \<and>
         mapped_col df cm ''facebook_spend'' = Some cf \<and>
         mapped_col df cm ''google_spend'' = Some cg \<and>
         mapped_col df cm ''tiktok_spend'' = Some ct \<and>
         spend_in_range (series_sum (vals cf (rows df))) \<and>
         spend_in_range (series_sum (vals cg (rows df))) \<and>
         spend_in_range (series_sum (vals ct (rows df))) \<and>
         finite_positive (smart_total_spend df cm) \<and>
         revenue_in_range (series_sum (vals rc (rows df))) \<longrightarrow>
      (\<exists>s l. alloc_sum (spend_based sm) (map title platforms) = Some s \<and>
             within_tolerance s (series_sum (vals rc (rows df))) \<and>
             alloc_sum (linear sm) [''Facebook'', ''Google'', ''TikTok''] = Some l \<and>
             within_tolerance l (series_sum (vals rc (rows df))) \<and>
             (\<forall>k \<in> set [''Facebook'', ''Google'', ''TikTok''].
                linear sm k = Some (fl_div (series_sum (vals rc (rows df))) (Fin 3)))))"
proof (intro conjI allI impI)
  fix am
  assume h: "calculate_attribution_model df = Inr am \<and>
         spend_in_range (series_sum (vals ''facebook_spend'' (rows df))) \<and>
         spend_in_range (series_sum (vals ''google_spend'' (rows df))) \<and>
         spend_in_range (series_sum (vals ''tiktok_spend'' (rows df))) \<and>
         finite_positive (platform_spend_total df) \<and>
         revenue_in_range (series_sum (vals (revenue_col_of df) (rows df)))"
  then obtain a b c r where
    a: "series_sum (vals ''facebook_spend'' (rows df)) = Fin a" "rng (- 300) 300 a"
    and b: "series_sum (vals ''google_spend'' (rows df)) = Fin b" "rng (- 300) 300 b"
    and c: "series_sum (vals ''tiktok_spend'' (rows df)) = Fin c" "rng (- 300) 300 c"
    and R: "series_sum (vals (revenue_col_of df) (rows df)) = Fin r"
      "pow2 (- 300) \<le> r" "r \<le> pow2 300"
    unfolding spend_in_range_iff revenue_in_range_iff by blast
  from h have ret: "calculate_attribution_model df = Inr am"
    and T: "finite_positive (platform_spend_total df)" by blast+
  note sums = attribution_model_sums [OF ret a b c T R]
  from sums(1) sums(2) sums(3)
  show "\<exists>s l. alloc_sum (spend_based am) platforms = Some s \<and>
             within_tolerance s (series_sum (vals (revenue_col_of df) (rows df))) \<and>
             alloc_sum (linear am) platforms = Some l \<and>
             within_tolerance l (series_sum (vals (revenue_col_of df) (rows df))) \<and>
             (\<forall>p \<in> set platforms.
                linear am p
                  = Some (fl_div (series_sum (vals (revenue_col_of df) (rows df))) (Fin 3)))"
    unfolding R(1) by blast
next
  fix sm rc cf cg ct
  assume h: "calculate_attribution_models_smart df cm = Inr (Some sm) \<and>
         cm ''total_revenue'' = Some rc \<and>
         mapped_col df cm ''facebook_spend'' = Some cf \<and>
         mapped_col df cm ''google_spend'' = Some cg \<and>
         mapped_col df cm ''tiktok_spend'' = Some ct \<and>
         spend_in_range (series_sum (vals cf (rows df))) \<and>
         spend_in_range (series_sum (vals cg (rows df))) \<and>
         spend_in_range (series_sum (vals ct (rows df))) \<and>
         finite_positive (smart_total_spend df cm) \<and>
         revenue_in_range (series_sum (vals rc (rows df)))"
  then obtain a b c r where
    a: "series_sum (vals cf (rows df)) = Fin a" "rng (- 300) 300 a"
    and b: "series_sum (vals cg (rows df)) = Fin b" "rng (- 300) 300 b"
    and c: "series_sum (vals ct (rows df)) = Fin c" "rng (- 300) 300 c"
    and R: "series_sum (vals rc (rows df)) = Fin r" "pow2 (- 300) \<le> r" "r \<le> pow2 300"
    unfolding spend_in_range_iff revenue_in_range_iff by blast
  from h have ret: "calculate_attribution_models_smart df cm = Inr (Some sm)"
    and rc: "cm ''total_revenue'' = Some rc"
    and cf: "mapped_col df cm ''facebook_spend'' = Some cf"
    and cg: "mapped_col df cm ''google_spend'' = Some cg"
    and ct: "mapped_col df cm ''tiktok_spend'' = Some ct"
    and T: "finite_positive (smart_total_spend df cm)" by blast+
  note sums = smart_models_sums [OF ret rc cf cg ct a b c T R]
  from sums(1) sums(2) sums(3)
  show "\<exists>s l. alloc_sum (spend_based sm) (map title platforms) = Some s \<and>
             within_tolerance s (series_sum (vals rc (rows df))) \<and>
             alloc_sum (linear sm) [''Facebook'', ''Google'', ''TikTok''] = Some l \<and>
             within_tolerance l (series_sum (vals rc (rows df))) \<and>
             (\<forall>k \<in> set [''Facebook'', ''Google'', ''TikTok''].
                linear sm k = Some (fl_div (series_sum (vals rc (rows df))) (Fin 3)))"
    unfolding R(1) by blast
qed

lemma calculate_attribution_model_returns:
  assumes "\<forall>c \<in> set [''facebook_attributed revenue'', ''google_attributed revenue'',
      ''tiktok_attributed revenue'', ''facebook_spend'', ''google_spend'', ''tiktok_spend'',
      revenue_col_of df]. has_col df c"
  shows "\<exists>am. calculate_attribution_model df = Inr am"
  using assms by (simp add: calculate_attribution_model_def ebind_def getcol_def Let_def)

lemma campaign_sums:
  "series_sum (vals ''total revenue'' (rows campaign_days)) = Fin 1000"
  "series_sum (vals ''facebook_spend'' (rows campaign_days)) = Fin 120"
  "series_sum (vals ''google_spend'' (rows campaign_days)) = Fin 80"
  "series_sum (vals ''tiktok_spend'' (rows campaign_days)) = Fin 0"
  by (simp_all add: campaign_days_def campaign_row_def mk_row_def vals_def series_sum_def
      dropna_def isnan_def np_sum_def)

lemma campaign_revenue_col: "revenue_col_of campaign_days = ''total revenue''"
  by (simp add: revenue_col_of_def has_col_def campaign_days_def)

lemma campaign_ranges:
  "rng (- 300) 300 120" "rng (- 300) 300 80" "rng (- 300) 300 0"
  "pow2 (- 300) \<le> 1000" "1000 \<le> pow2 300"
  by (simp_all add: rng_def)

theorem attribution_sum_law_witness:
  "(\<exists>am s l. calculate_attribution_model campaign_days = Inr am \<and>
       alloc_sum (spend_based am) platforms = Some s \<and> within_tolerance s (Fin 1000) \<and>
       alloc_sum (linear am) platforms = Some l \<and> within_tolerance l (Fin 1000)) \<and>
   (\<exists>sm s l. calculate_attribution_models_smart campaign_days (smart_column_finder campaign_days)
         = Inr (Some sm) \<and>
       alloc_sum (spend_based sm) (map title platforms) = Some s \<and>
       within_tolerance s (Fin 1000) \<and>
       alloc_sum (linear sm) [''Facebook'', ''Google'', ''TikTok''] = Some l \<and>
       within_tolerance l (Fin 1000))"
proof -
  let ?cm = "smart_column_finder campaign_days"
  note law = attribution_sum_law [of campaign_days ?cm]
  note pos = total_positive [OF campaign_ranges(1,2,3)]
  have "\<forall>c \<in> set [''facebook_attributed revenue'', ''google_attributed revenue'',
      ''tiktok_attributed revenue'', ''facebook_spend'', ''google_spend'', ''tiktok_spend'',
      revenue_col_of campaign_days]. has_col campaign_days c"
    by (simp add: campaign_revenue_col) (simp add: has_col_def campaign_days_def)
  then obtain am where am: "calculate_attribution_model campaign_days = Inr am"
    using calculate_attribution_model_returns by blast
  have sr: "spend_in_range (series_sum (vals ''facebook_spend'' (rows campaign_days)))"
    "spend_in_range (series_sum (vals ''google_spend'' (rows campaign_days)))"
    "spend_in_range (series_sum (vals ''tiktok_spend'' (rows campaign_days)))"
    "revenue_in_range (series_sum (vals ''total revenue'' (rows campaign_days)))"
    by (simp_all add: campaign_sums)
  have rr: "revenue_in_range
      (series_sum (vals (revenue_col_of campaign_days) (rows campaign_days)))"
    using sr(4) by (simp add: campaign_revenue_col)
  have tp: "finite_positive (platform_spend_total campaign_days)"
    unfolding platform_spend_total_def campaign_sums by (rule pos(1)) simp
  from law am tp sr(1,2,3) rr obtain s l where
    "alloc_sum (spend_based am) platforms = Some s"
    "within_tolerance s (series_sum (vals (revenue_col_of campaign_days) (rows campaign_days)))"
    "alloc_sum (linear am) platforms = Some l"
    "within_tolerance l (series_sum (vals (revenue_col_of campaign_days) (rows campaign_days)))"
    by blast
  with am have first: "\<exists>am s l. calculate_attribution_model campaign_days = Inr am \<and>
       alloc_sum (spend_based am) platforms = Some s \<and> within_tolerance s (Fin 1000) \<and>
       alloc_sum (linear am) platforms = Some l \<and> within_tolerance l (Fin 1000)"
    unfolding campaign_revenue_col campaign_sums by blast
  have rc: "?cm ''total_revenue'' = Some ''total revenue''"
    by (simp add: finder_campaign)
  have hrc: "has_col campaign_days ''total revenue''"
    by (simp add: has_col_def campaign_days_def)
  from smart_returns [of ?cm "''total revenue''" campaign_days, OF rc hrc] obtain sm where
    sm: "calculate_attribution_models_smart campaign_days ?cm = Inr (Some sm)" by blast
  have hsp: "has_col campaign_days ''facebook_spend''" "has_col campaign_days ''google_spend''"
    "has_col campaign_days ''tiktok_spend''"
    by (simp_all add: has_col_def campaign_days_def)
  have mc: "mapped_col campaign_days ?cm ''facebook_spend'' = Some ''facebook_spend''"
    "mapped_col campaign_days ?cm ''google_spend'' = Some ''google_spend''"
    "mapped_col campaign_days ?cm ''tiktok_spend'' = Some ''tiktok_spend''"
    by (simp_all add: mapped_col_def finder_campaign hsp)
  have stp: "finite_positive (smart_total_spend campaign_days ?cm)"
    unfolding smart_total_spend_all [OF mc] campaign_sums by (rule pos(2)) simp
  from law sm rc mc stp sr obtain s2 l2 where
    "alloc_sum (spend_based sm) (map title platforms) = Some s2"
    "within_tolerance s2 (series_sum (vals ''total revenue'' (rows campaign_days)))"
    "alloc_sum (linear sm) [''Facebook'', ''Google'', ''TikTok''] = Some l2"
    "within_tolerance l2 (series_sum (vals ''total revenue'' (rows campaign_days)))"
    by blast
  with sm have second: "\<exists>sm s l. calculate_attribution_models_smart campaign_days ?cm
         = Inr (Some sm) \<and>
       alloc_sum (spend_based sm) (map title platforms) = Some s \<and>
       within_tolerance s (Fin 1000) \<and>
       alloc_sum (linear sm) [''Facebook'', ''Google'', ''TikTok''] = Some l \<and>
       within_tolerance l (Fin 1000)"
    unfolding campaign_sums by blast
  from first second show ?thesis by blast
qed

lemma cancelling_sums:
  "series_sum (vals ''total revenue'' (rows cancelling_day)) = Fin 5"
  "series_sum (vals ''facebook_spend'' (rows cancelling_day)) = Fin 9007199254740992"
  "series_sum (vals ''google_spend'' (rows cancelling_day)) = Fin (- 9007199254740990)"
  "series_sum (vals ''tiktok_spend'' (rows cancelling_day)) = Fin 0"
  by (simp_all add: cancelling_day_def attribution_day_def mk_row_def vals_def series_sum_def
      dropna_def isnan_def np_sum_def)

lemma tiny_sums:
  "series_sum (vals ''total revenue'' (rows tiny_day)) = Fin (5 / 2 ^ 1074)"
  "series_sum (vals ''facebook_spend'' (rows tiny_day)) = Fin 60"
  "series_sum (vals ''google_spend'' (rows tiny_day)) = Fin 40"
  "series_sum (vals ''tiktok_spend'' (rows tiny_day)) = Fin 0"
  by (simp_all add: tiny_day_def attribution_day_def mk_row_def vals_def series_sum_def
      dropna_def isnan_def np_sum_def)

lemma attribution_day_model:
  "\<exists>am. calculate_attribution_model (attribution_day r a b c) = Inr am"
  by (rule calculate_attribution_model_returns)
     (simp add: revenue_col_of_def has_col_def attribution_day_def)

lemma attribution_day_revenue_col: "revenue_col_of (attribution_day r a b c) = ''total revenue''"
  by (simp add: revenue_col_of_def has_col_def attribution_day_def)

lemma cancelling_roundings:
  "round64 2 = Fin 2"
  "round64 4 = Fin 4"
  "round64 4503599627370496 = Fin 4503599627370496"
  "round64 22517998136852480 = Fin 22517998136852480"
  "round64 (- 4503599627370495) = Fin (- 4503599627370495)"
  "round64 (- 22517998136852475) = Fin (- 22517998136852476)"
proof -
  show "round64 2 = Fin 2" using round64_exact [of 1 2 "2 ^ 52"] by simp
  show "round64 4 = Fin 4" using round64_exact [of 2 4 "2 ^ 52"] by simp
  show "round64 4503599627370496 = Fin 4503599627370496"
    using round64_exact [of 52 4503599627370496 "2 ^ 52"] by simp
  show "round64 22517998136852480 = Fin 22517998136852480"
    using round64_exact [of 54 22517998136852480 "5 * 2 ^ 50"] by simp
  show "round64 (- 4503599627370495) = Fin (- 4503599627370495)"
    using round64_exact [of 51 "- 4503599627370495" "- 9007199254740990"] by simp
  show "round64 (- 22517998136852475) = Fin (- 22517998136852476)"
    using round64_at [of 54 "- 22517998136852475"]
    by (simp add: round_half_even_def Let_def)
qed

lemma tiny_roundings:
  "round64 (5 / 2 ^ 1074 / 3) = Fin (2 / 2 ^ 1074)"
  "round64 (2 / 2 ^ 1074) = Fin (2 / 2 ^ 1074)"
  "round64 (4 / 2 ^ 1074) = Fin (4 / 2 ^ 1074)"
  "round64 (6 / 2 ^ 1074) = Fin (6 / 2 ^ 1074)"
proof -
  show "round64 (5 / 2 ^ 1074 / 3) = Fin (2 / 2 ^ 1074)"
    using round64_subnormal [of "5 / 2 ^ 1074 / 3"]
    by (simp add: round_half_even_def Let_def)
  show "round64 (2 / 2 ^ 1074) = Fin (2 / 2 ^ 1074)"
    using round64_subnormal [of "2 / 2 ^ 1074"]
    by (simp add: round_half_even_def Let_def)
  show "round64 (4 / 2 ^ 1074) = Fin (4 / 2 ^ 1074)"
    using round64_subnormal [of "4 / 2 ^ 1074"]
    by (simp add: round_half_even_def Let_def)
  show "round64 (6 / 2 ^ 1074) = Fin (6 / 2 ^ 1074)"
    using round64_subnormal [of "6 / 2 ^ 1074"]
    by (simp add: round_half_even_def Let_def)
qed


lemma overflow_sums:
  "series_sum (vals ''total revenue'' (rows overflow_day)) = Fin 5"
  "series_sum (vals ''facebook_spend'' (rows overflow_day)) = Fin (2 ^ 1023)"
  "series_sum (vals ''google_spend'' (rows overflow_day)) = Fin (2 ^ 1023)"
  "series_sum (vals ''tiktok_spend'' (rows overflow_day)) = Fin 0"
  by (simp_all add: overflow_day_def attribution_day_def mk_row_def vals_def series_sum_def
      dropna_def isnan_def np_sum_def)

lemma round64_overflow: "round64 (2 ^ 1024) = PInf"
proof -
  have e: "exponent64 (2 ^ 1024) = 1024"
    using exponent64_eval [of 1024 "2 ^ 1024"] by simp
  show ?thesis using e by (simp add: round64_def Let_def round_half_even_def)
qed

lemma overflow_total: "platform_spend_total overflow_day = PInf"
  using round64_overflow
  by (simp add: platform_spend_total_def overflow_sums fl_add_def)

lemma within_tolerance_Fin:
  "within_tolerance (Fin x) (Fin y) = (\<bar>x - y\<bar> \<le> (1 / 1000000) * \<bar>y\<bar>)"
  by (auto simp: within_tolerance_def fsub_def)

text \<open>
  With a Facebook spend of \<open>2 ^ 53\<close>, a Google spend of \<open>2 - 2 ^ 53\<close> and a total
  revenue of 5, the total spend is 2, the two shares are \<open>5 * 2 ^ 52\<close> and, after
  rounding, \<open>4 - 5 * 2 ^ 52\<close>, and the spend-based allocations sum to 4. With a total
  revenue of \<open>5 * 2 ^ -1074\<close> every linear allocation rounds to \<open>2 * 2 ^ -1074\<close>, and
  the three sum to \<open>6 * 2 ^ -1074\<close>. With two spends of \<open>2 ^ 1023\<close> the total
  spend overflows to infinity, which is greater than 0, every share is 0, and the
  spend-based allocations sum to 0 against a total revenue of 5. None of the three sums
  is within \<open>1e-6\<close> of the total revenue.
\<close>

theorem attribution_sum_counterexample:
  "finite_positive (platform_spend_total cancelling_day) \<and>
   series_sum (vals (revenue_col_of cancelling_day) (rows cancelling_day)) = Fin 5 \<and>
   model_sum spend_based (calculate_attribution_model cancelling_day) = Some (Fin 4) \<and>
   \<not> within_tolerance (Fin 4) (Fin 5) \<and>
   finite_positive (platform_spend_total tiny_day) \<and>
   series_sum (vals (revenue_col_of tiny_day) (rows tiny_day)) = Fin (5 / 2 ^ 1074) \<and>
   model_sum linear (calculate_attribution_model tiny_day) = Some (Fin (6 / 2 ^ 1074)) \<and>
   \<not> within_tolerance (Fin (6 / 2 ^ 1074)) (Fin (5 / 2 ^ 1074)) \<and>
   fgt (platform_spend_total overflow_day) (Fin 0) \<and>
   series_sum (vals (revenue_col_of overflow_day) (rows overflow_day)) = Fin 5 \<and>
   model_sum spend_based (calculate_attribution_model overflow_day) = Some (Fin 0) \<and>
   \<not> within_tolerance (Fin 0) (Fin 5)"
proof -
  have t1: "platform_spend_total cancelling_day = Fin 2"
    by (simp add: platform_spend_total_def cancelling_sums fl_add_Fin cancelling_roundings)
  have rc1: "revenue_col_of cancelling_day = ''total revenue''"
    by (simp add: cancelling_day_def attribution_day_revenue_col)
  obtain am where am: "calculate_attribution_model cancelling_day = Inr am"
    using attribution_day_model unfolding cancelling_day_def by blast
  have sb: "spend_based am = [''facebook'' \<mapsto> Fin 22517998136852480,
      ''google'' \<mapsto> Fin (- 22517998136852476), ''tiktok'' \<mapsto> Fin 0]"
    by (simp add: attribution_model_result(1) [OF am] rc1 cancelling_sums t1 spend_share_def
        fgt_def fl_div_Fin fl_mul_Fin cancelling_roundings)
  have s1: "model_sum spend_based (calculate_attribution_model cancelling_day) = Some (Fin 4)"
    by (simp add: am model_sum_def sb platforms_def alloc_sum_def fl_add_Fin
        cancelling_roundings)
  have a60: "rng (- 300) 300 60" "rng (- 300) 300 40" "rng (- 300) 300 0"
    by (simp_all add: rng_def)
  have t2: "finite_positive (platform_spend_total tiny_day)"
    unfolding platform_spend_total_def tiny_sums by (rule total_positive(1) [OF a60]) simp
  have rc2: "revenue_col_of tiny_day = ''total revenue''"
    by (simp add: tiny_day_def attribution_day_revenue_col)
  obtain am2 where am2: "calculate_attribution_model tiny_day = Inr am2"
    using attribution_day_model unfolding tiny_day_def by blast
  have ln: "linear am2 = [''facebook'' \<mapsto> Fin (2 / 2 ^ 1074),
      ''google'' \<mapsto> Fin (2 / 2 ^ 1074), ''tiktok'' \<mapsto> Fin (2 / 2 ^ 1074)]"
    using tiny_roundings(1)
    by (simp add: attribution_model_result(2) [OF am2] rc2 tiny_sums fl_div_Fin)
  have s2: "model_sum linear (calculate_attribution_model tiny_day) = Some (Fin (6 / 2 ^ 1074))"
    using tiny_roundings(2,3,4)
    by (simp add: am2 model_sum_def ln platforms_def alloc_sum_def fl_add_Fin)
  have n1: "\<not> within_tolerance (Fin 4) (Fin 5)" by (simp add: within_tolerance_Fin)
  have n2: "\<not> within_tolerance (Fin (6 / 2 ^ 1074)) (Fin (5 / 2 ^ 1074))"
    by (simp add: within_tolerance_Fin)
  have rc3: "revenue_col_of overflow_day = ''total revenue''"
    by (simp add: overflow_day_def attribution_day_revenue_col)
  obtain am3 where am3: "calculate_attribution_model overflow_day = Inr am3"
    using attribution_day_model unfolding overflow_day_def by blast
  have sb3: "spend_based am3 = [''facebook'' \<mapsto> Fin 0, ''google'' \<mapsto> Fin 0,
      ''tiktok'' \<mapsto> Fin 0]"
    by (simp add: attribution_model_result(1) [OF am3] rc3 overflow_sums overflow_total
        spend_share_def fgt_def fl_div_def fl_mul_def)
  have s3: "model_sum spend_based (calculate_attribution_model overflow_day) = Some (Fin 0)"
    by (simp add: am3 model_sum_def sb3 platforms_def alloc_sum_def fl_add_Fin)
  have t3: "fgt (platform_spend_total overflow_day) (Fin 0)"
    by (simp add: overflow_total fgt_def)
  have n3: "\<not> within_tolerance (Fin 0) (Fin 5)" by (simp add: within_tolerance_Fin)
  have r1: "series_sum (vals (revenue_col_of cancelling_day) (rows cancelling_day)) = Fin 5"
    by (simp add: rc1 cancelling_sums)
  have r2: "series_sum (vals (revenue_col_of tiny_day) (rows tiny_day)) = Fin (5 / 2 ^ 1074)"
    unfolding rc2 by (rule tiny_sums(1))
  have r3: "series_sum (vals (revenue_col_of overflow_day) (rows overflow_day)) = Fin 5"
    by (simp add: rc3 overflow_sums)
  have t1': "finite_positive (platform_spend_total cancelling_day)" by (simp add: t1)
  from t1' r1 s1 n1 t2 r2 s2 n2 t3 r3 s3 n3 show ?thesis by blast
qed

section \<open>Attribution: platforms without columns\<close>

lemma first_loop_absent:
  assumes p: "p \<in> set platforms"
    and none: "mapped_col df cm (p @ ''_attributed_revenue'') = None"
  shows "fst (smart_first_loop df cm) (title p) = Some (Fin 0)"
    and "fst (snd (smart_first_loop df cm)) (title p) = Some (Fin 0)"
  using p none
  by (auto simp: smart_first_loop_def platforms_def smart_platform_step_def Let_def
      title_platforms split: option.splits)

lemma spend_loop_absent:
  assumes p: "p \<in> set platforms"
    and none: "mapped_col df cm (p @ ''_spend'') = None"
  shows "foldl (smart_spend_step df cm ts tr) Map.empty platforms (title p) = Some (Fin 0)"
  using p none
  by (auto simp: platforms_def smart_spend_step_def title_platforms split: option.splits)

lemma map_first_apply:
  "map_first m key P cols k =
     (if k = key \<and> find P cols \<noteq> None then find P cols else m k)"
  by (auto simp: map_first_def split: option.splits)

lemma finder_absent:
  assumes p: "p \<in> set platforms"
  shows "\<not> (\<exists>col \<in> set (columns df). is_platform_col p ''revenue'' col)
           \<Longrightarrow> smart_column_finder df (p @ ''_attributed_revenue'') = None"
    and "\<not> (\<exists>col \<in> set (columns df). is_platform_col p ''spend'' col)
           \<Longrightarrow> smart_column_finder df (p @ ''_spend'') = None"
  using p
  by (auto simp: smart_column_finder_def Let_def platforms_def finder_platform_step_def
      map_first_apply find_None_iff)

lemma mapped_col_None: "cm key = None \<Longrightarrow> mapped_col df cm key = None"
  by (simp add: mapped_col_def)

text \<open>
  C3 (as amended). In \<open>calculate_attribution_models_smart\<close>, when the mapping has a
  total revenue column of the table, no error is raised, and a platform whose
  attributed-revenue and spend columns are absent (no entry in the mapping, or an entry
  that is not a column of the table) gets 0 in the last-click, spend-based and time-decay
  models. The linear model gives every platform a third of the total revenue, whatever
  columns are there. (\<open>finder_absent\<close>: the mapping of \<open>smart_column_finder\<close> has no
  entry for a platform when no column name contains the platform and the word.)
\<close>

theorem absent_platform_allocations:
  assumes rc: "cm ''total_revenue'' = Some rc" and has: "has_col df rc"
    and p: "p \<in> set platforms"
    and no_rev: "mapped_col df cm (p @ ''_attributed_revenue'') = None"
    and no_spend: "mapped_col df cm (p @ ''_spend'') = None"
  shows "\<exists>sm. calculate_attribution_models_smart df cm = Inr (Some sm) \<and>
     last_click sm (title p) = Some (Fin 0) \<and>
     spend_based sm (title p) = Some (Fin 0) \<and>
     time_decay sm (title p) = Some (Fin 0) \<and>
     linear sm ''Facebook'' = Some (fl_div (series_sum (vals rc (rows df))) (Fin 3)) \<and>
     linear sm ''Google'' = Some (fl_div (series_sum (vals rc (rows df))) (Fin 3)) \<and>
     linear sm ''TikTok'' = Some (fl_div (series_sum (vals rc (rows df))) (Fin 3))"
proof -
  from smart_returns [of cm rc df, OF rc has] obtain sm where
    sm: "calculate_attribution_models_smart df cm = Inr (Some sm)" by blast
  note res = smart_result [OF sm rc]
  have "last_click sm (title p) = Some (Fin 0)"
    by (simp add: res(2) first_loop_absent(1) [OF p no_rev])
  moreover have "time_decay sm (title p) = Some (Fin 0)"
    by (simp add: res(3) first_loop_absent(2) [OF p no_rev])
  moreover have "spend_based sm (title p) = Some (Fin 0)"
    by (simp add: res(4) spend_loop_absent [OF p no_spend])
  moreover have "linear sm ''Facebook'' = Some (fl_div (series_sum (vals rc (rows df))) (Fin 3))"
    "linear sm ''Google'' = Some (fl_div (series_sum (vals rc (rows df))) (Fin 3))"
    "linear sm ''TikTok'' = Some (fl_div (series_sum (vals rc (rows df))) (Fin 3))"
    by (simp_all add: res(5))
  ultimately show ?thesis using sm by blast
qed

lemma finder_two_platform:
  "smart_column_finder two_platform_days =
     [''total_revenue'' \<mapsto> ''total revenue'',
      ''facebook_attributed_revenue'' \<mapsto> ''facebook_attributed revenue'',
      ''facebook_spend'' \<mapsto> ''facebook_spend'',
      ''google_attributed_revenue'' \<mapsto> ''google_attributed revenue'',
      ''google_spend'' \<mapsto> ''google_spend'']"
  by (simp add: smart_column_finder_def two_platform_days_def Let_def map_first_def
      is_total_revenue_col_def platforms_def finder_platform_step_def is_platform_col_def
      lower_def lower_char_def is_upper_def)

lemma third_of_1000: "fl_div (Fin 1000) (Fin 3) = Fin (5864062014805333 / 2 ^ 44)"
  using round64_at [of 8 "1000 / 3"]
  by (simp add: fl_div_Fin round_half_even_def Let_def)

lemma two_platform_revenue:
  "series_sum (vals ''total revenue'' (rows two_platform_days)) = Fin 1000"
  by (simp add: two_platform_days_def campaign_row_def mk_row_def vals_def series_sum_def
      dropna_def isnan_def np_sum_def)

theorem absent_platform_allocations_witness:
  "\<exists>sm. calculate_attribution_models_smart two_platform_days
           (smart_column_finder two_platform_days) = Inr (Some sm) \<and>
     last_click sm ''Tiktok'' = Some (Fin 0) \<and>
     spend_based sm ''Tiktok'' = Some (Fin 0) \<and>
     time_decay sm ''Tiktok'' = Some (Fin 0) \<and>
     linear sm ''TikTok'' = Some (Fin (5864062014805333 / 2 ^ 44))"
proof -
  let ?cm = "smart_column_finder two_platform_days"
  have rc: "?cm ''total_revenue'' = Some ''total revenue''"
    by (simp add: finder_two_platform)
  have has: "has_col two_platform_days ''total revenue''"
    by (simp add: has_col_def two_platform_days_def)
  have p: "''tiktok'' \<in> set platforms" by (simp add: platforms_def)
  have "?cm (''tiktok'' @ ''_attributed_revenue'') = None" "?cm (''tiktok'' @ ''_spend'') = None"
    by (simp_all add: finder_two_platform)
  then have none: "mapped_col two_platform_days ?cm (''tiktok'' @ ''_attributed_revenue'') = None"
    "mapped_col two_platform_days ?cm (''tiktok'' @ ''_spend'') = None"
    by (simp_all add: mapped_col_None)
  from absent_platform_allocations [of ?cm "''total revenue''" two_platform_days "''tiktok''",
      OF rc has p none]
  show ?thesis by (auto simp: title_platforms two_platform_revenue third_of_1000)
qed

text \<open>
  On a table without the TikTok columns and with a total revenue of 1000, the linear
  model still gives TikTok a third of it, and \<open>calculate_attribution_model\<close> raises
  \<open>KeyError\<close> at the first TikTok column it reads.
\<close>

theorem absent_platform_counterexample:
  "allocation_of linear ''TikTok''
     (calculate_attribution_models_smart two_platform_days
        (smart_column_finder two_platform_days)) = Some (Fin (5864062014805333 / 2 ^ 44)) \<and>
   Fin (5864062014805333 / 2 ^ 44) \<noteq> Fin 0 \<and>
   calculate_attribution_model two_platform_days = Inl (KeyError ''tiktok_attributed revenue'')"
proof -
  let ?cm = "smart_column_finder two_platform_days"
  have rc: "?cm ''total_revenue'' = Some ''total revenue''"
    by (simp add: finder_two_platform)
  have has: "has_col two_platform_days ''total revenue''"
    by (simp add: has_col_def two_platform_days_def)
  from smart_returns [of ?cm "''total revenue''" two_platform_days, OF rc has] obtain sm where
    sm: "calculate_attribution_models_smart two_platform_days ?cm = Inr (Some sm)" by blast
  have "linear sm ''TikTok'' = Some (Fin (5864062014805333 / 2 ^ 44))"
    by (simp add: smart_result(5) [OF sm rc] two_platform_revenue third_of_1000)
  with sm have 1: "allocation_of linear ''TikTok''
     (calculate_attribution_models_smart two_platform_days ?cm)
       = Some (Fin (5864062014805333 / 2 ^ 44))"
    by (simp add: allocation_of_def)
  have 2: "calculate_attribution_model two_platform_days
             = Inl (KeyError ''tiktok_attributed revenue'')"
    by (simp add: calculate_attribution_model_def ebind_def getcol_def has_col_def
        two_platform_days_def Let_def)
  from 1 2 show ?thesis by simp
qed

section \<open>The regression coefficient\<close>








section \<open>Trend direction\<close>








text \<open>
  C10. \<open>calculate_trend_direction\<close> returns a pair for every series and either value
  of the flag: its direction is one of the three names, and whenever the body of the
  \<open>try\<close> raises, the result is \<open>("stable", 0)\<close>.
\<close>

theorem trend_direction_total:
  "fst (calculate_trend_direction sk series) \<in> {''increasing'', ''decreasing'', ''stable''} \<and>
   (\<forall>e. trend_body sk series = Inl e \<longrightarrow>
        calculate_trend_direction sk series = (''stable'', Fin 0))"
  by (auto simp: calculate_trend_direction_def trend_body_def classify_def ebind_def
      split: sum.splits if_splits)

theorem trend_direction_total_witness:
  "trend_body True [Fin 1, NaN] = Inl ValueError \<and>
   calculate_trend_direction True [Fin 1, NaN] = (''stable'', Fin 0) \<and>
   fst (calculate_trend_direction True [Fin 1, NaN])
     \<in> {''increasing'', ''decreasing'', ''stable''}"
proof -
  have e: "trend_body True [Fin 1, NaN] = Inl ValueError"
    by (simp add: trend_body_def linear_regression_coef_def ebind_def isfinite_def isnan_def)
  with trend_direction_total [of True "[Fin 1, NaN]"] show ?thesis by simp
qed

end
